theory Spec2Isabelle
  imports Complex_Main "HOL-Library.Multiset"
begin

section \<open>Numbers and library primitives\<close>

text \<open>
  Python floats are modelled as real numbers, Python and numpy integers as \<open>int\<close>.
  The one non-finite float the pipeline stores on purpose, \<open>float('inf')\<close> as the initial
  median reprojection error, has a constructor of its own.
\<close>

datatype pyfloat = Finite real | Infinity

text \<open>\<open>np.clip(x, lo, hi)\<close> is \<open>minimum(maximum(x, lo), hi)\<close>.\<close>

definition clip :: "real \<Rightarrow> real \<Rightarrow> real \<Rightarrow> real" where
  "clip x lo hi = min (max x lo) hi"

text \<open>\<open>np.clip(1.0 - reproj / 50.0, 0.0, 1.0)\<close>; with \<open>reproj = inf\<close> the argument is \<open>-inf\<close>
  and the clip returns its lower bound.\<close>

fun reproj_norm :: "pyfloat \<Rightarrow> real" where
  "reproj_norm (Finite r) = clip (1 - r / 50) 0 1"
| "reproj_norm Infinity = 0"

section \<open>Alignment confidence (Segment.py)\<close>

text \<open>
  The \<open>stats\<close> dictionary; a field is \<open>None\<close> when the key is absent, and
  \<open>stats.get(key, default)\<close> supplies the default.
\<close>

record stats =
  matches :: "int option"
  inliers :: "int option"
  median_reproj_err :: "pyfloat option"

definition empty_stats :: stats where
  "empty_stats = \<lparr>matches = None, inliers = None, median_reproj_err = None\<rparr>"

definition get_or :: "'a option \<Rightarrow> 'a \<Rightarrow> 'a" where
  "get_or v d = (case v of None \<Rightarrow> d | Some x \<Rightarrow> x)"

definition compute_alignment_confidence_from_stats :: "stats \<Rightarrow> bool \<Rightarrow> real \<Rightarrow> real" where
  "compute_alignment_confidence_from_stats st fallback doc_area_ratio =
     (if fallback then clip ((doc_area_ratio - 0.2) / 0.75) 0 1
      else
        let m = get_or (matches st) 0;
            i = get_or (inliers st) 0
        in if m \<le> 0 then 0
           else
             let inlier_ratio = real_of_int i / real_of_int m;
                 reproj = get_or (median_reproj_err st) (Finite 999);
                 score = 0.7 * inlier_ratio + 0.3 * reproj_norm reproj
             in clip score 0 1)"

text \<open>The statistics of a feature match with all three keys present.\<close>

definition match_stats :: "int \<Rightarrow> int \<Rightarrow> pyfloat \<Rightarrow> stats" where
  "match_stats m i e = \<lparr>matches = Some m, inliers = Some i, median_reproj_err = Some e\<rparr>"

section \<open>Corner canonicalisation (Segment.py, train.py)\<close>

text \<open>
  \<open>np.argmin\<close> and \<open>np.argmax\<close> return the first index at which the extreme value
  occurs; both raise on an empty array (\<open>None\<close> here).
\<close>

fun argmin_from :: "'a::linorder \<Rightarrow> nat \<Rightarrow> nat \<Rightarrow> 'a list \<Rightarrow> nat" where
  "argmin_from best bi i [] = bi"
| "argmin_from best bi i (x # xs) =
     (if x < best then argmin_from x i (Suc i) xs else argmin_from best bi (Suc i) xs)"

fun argmax_from :: "'a::linorder \<Rightarrow> nat \<Rightarrow> nat \<Rightarrow> 'a list \<Rightarrow> nat" where
  "argmax_from best bi i [] = bi"
| "argmax_from best bi i (x # xs) =
     (if best < x then argmax_from x i (Suc i) xs else argmax_from best bi (Suc i) xs)"

definition argmin :: "'a::linorder list \<Rightarrow> nat option" where
  "argmin xs = (case xs of [] \<Rightarrow> None | x # r \<Rightarrow> Some (argmin_from x 0 1 r))"

definition argmax :: "'a::linorder list \<Rightarrow> nat option" where
  "argmax xs = (case xs of [] \<Rightarrow> None | x # r \<Rightarrow> Some (argmax_from x 0 1 r))"

type_synonym 'a point = "'a \<times> 'a"

text \<open>\<open>pts.sum(axis=1)\<close> and \<open>np.diff(pts, axis=1)\<close>: per point, \<open>x + y\<close> and \<open>y - x\<close>.\<close>

definition psum :: "'a::linordered_ab_group_add point \<Rightarrow> 'a" where
  "psum p = fst p + snd p"

definition pdiff :: "'a::linordered_ab_group_add point \<Rightarrow> 'a" where
  "pdiff p = snd p - fst p"

text \<open>
  \<open>order_points\<close> fills \<open>rect[0], rect[1], rect[2], rect[3]\<close>, \<open>order_corners\<close> builds
  \<open>[tl, tr, br, bl]\<close>: the same quadruple, returned here as a list of four points.
\<close>

definition order_points :: "'a::linordered_ab_group_add point list \<Rightarrow> 'a point list option" where
  "order_points pts =
     (let s = map psum pts; diff = map pdiff pts
      in case (argmin s, argmax s, argmin diff, argmax diff) of
           (Some i0, Some i2, Some i1, Some i3) \<Rightarrow> Some [pts ! i0, pts ! i1, pts ! i2, pts ! i3]
         | _ \<Rightarrow> None)"



section \<open>Matrices\<close>

datatype mat2 = Mat2 (m00: real) (m01: real) (m10: real) (m11: real)

datatype mat3 = Mat3 (h00: real) (h01: real) (h02: real)
                     (h10: real) (h11: real) (h12: real)
                     (h20: real) (h21: real) (h22: real)

fun mat2_mul :: "mat2 \<Rightarrow> mat2 \<Rightarrow> mat2" where
  "mat2_mul (Mat2 a b c d) (Mat2 e f g h) =
     Mat2 (a * e + b * g) (a * f + b * h) (c * e + d * g) (c * f + d * h)"

fun mat2_transpose :: "mat2 \<Rightarrow> mat2" where
  "mat2_transpose (Mat2 a b c d) = Mat2 a c b d"

fun mat2_det :: "mat2 \<Rightarrow> real" where
  "mat2_det (Mat2 a b c d) = a * d - b * c"

definition mat2_eye :: mat2 where
  "mat2_eye = Mat2 1 0 0 1"

definition mat2_diag :: "real \<Rightarrow> real \<Rightarrow> mat2" where
  "mat2_diag x y = Mat2 x 0 0 y"

text \<open>\<open>Vt[-1,:] *= -1\<close>: the last row negated.\<close>

fun negate_last_row :: "mat2 \<Rightarrow> mat2" where
  "negate_last_row (Mat2 a b c d) = Mat2 a b (- c) (- d)"

definition mat3_scale :: "mat3 \<Rightarrow> real \<Rightarrow> mat3" where
  "mat3_scale H k =
     Mat3 (h00 H / k) (h01 H / k) (h02 H / k)
          (h10 H / k) (h11 H / k) (h12 H / k)
          (h20 H / k) (h21 H / k) (h22 H / k)"

definition mat3_eye :: mat3 where
  "mat3_eye = Mat3 1 0 0  0 1 0  0 0 1"

definition mat3_det :: "mat3 \<Rightarrow> real" where
  "mat3_det H =
     h00 H * (h11 H * h22 H - h12 H * h21 H)
     - h01 H * (h10 H * h22 H - h12 H * h20 H)
     + h02 H * (h10 H * h21 H - h11 H * h20 H)"

text \<open>
  \<open>safe_inverse\<close>: \<open>np.linalg.inv\<close> raises \<open>LinAlgError\<close> on a singular matrix, which
  the function turns into \<open>None\<close>; otherwise the inverse is the adjugate over the
  determinant.
\<close>

definition safe_inverse :: "mat3 \<Rightarrow> mat3 option" where
  "safe_inverse H =
     (let d = mat3_det H in
      if d = 0 then None
      else Some (Mat3
        ((h11 H * h22 H - h12 H * h21 H) / d) ((h02 H * h21 H - h01 H * h22 H) / d)
          ((h01 H * h12 H - h02 H * h11 H) / d)
        ((h12 H * h20 H - h10 H * h22 H) / d) ((h00 H * h22 H - h02 H * h20 H) / d)
          ((h02 H * h10 H - h00 H * h12 H) / d)
        ((h10 H * h21 H - h11 H * h20 H) / d) ((h01 H * h20 H - h00 H * h21 H) / d)
          ((h00 H * h11 H - h01 H * h10 H) / d)))"

text \<open>\<open>np.linalg.norm\<close> of a 2-vector.\<close>

definition norm2 :: "real \<Rightarrow> real \<Rightarrow> real" where
  "norm2 x y = sqrt (x * x + y * y)"

definition dist2 :: "real point \<Rightarrow> real point \<Rightarrow> real" where
  "dist2 p q = norm2 (fst q - fst p) (snd q - snd p)"

text \<open>
  \<open>math.atan2(y, x)\<close> on real numbers: the angle of the point \<open>(x, y)\<close>, with
  \<open>atan2(0, 0) = 0\<close>.
\<close>

definition atan2 :: "real \<Rightarrow> real \<Rightarrow> real" where
  "atan2 y x =
     (if 0 < x then arctan (y / x)
      else if x < 0 then (if 0 \<le> y then arctan (y / x) + pi else arctan (y / x) - pi)
      else if 0 < y then pi / 2
      else if y < 0 then - (pi / 2)
      else 0)"

definition degrees :: "real \<Rightarrow> real" where
  "degrees a = a * 180 / pi"


section \<open>Transform decomposition (Segment.py)\<close>

record transform_params =
  rotation_deg :: real
  scale_x :: real
  scale_y :: real
  shear :: real
  tx :: real
  ty :: real
  p_h20 :: real
  p_h21 :: real

text \<open>
  \<open>np.linalg.svd\<close> is a library routine and a parameter of the model: for a 2x2 matrix
  it returns \<open>(U, s_vals, Vt)\<close>, or raises \<open>LinAlgError\<close> (\<open>None\<close>).  What numpy
  documents about its result is \<open>svd_contract\<close>: \<open>U\<close> and \<open>Vt\<close> are orthogonal, the
  singular values are non-negative and sorted in descending order, and
  \<open>U diag(s_vals) Vt\<close> is the argument.
\<close>

type_synonym svd_result = "mat2 \<times> (real \<times> real) \<times> mat2"

type_synonym svd_fn = "mat2 \<Rightarrow> svd_result option"




text \<open>
  The normalisation \<open>H / H[2,2]\<close>, with \<open>H / (H[2,2] + 1e-12)\<close> when \<open>|H[2,2]| < 1e-12\<close>.
  Division by zero has no value in the model: the result is \<open>None\<close> for a zero divisor.
  Neither branch has one, the divisor of the first being positive.
\<close>

definition normalize_h :: "mat3 \<Rightarrow> mat3 option" where
  "normalize_h H =
     (if \<bar>h22 H\<bar> < 1 / 10 ^ 12
      then (if h22 H + 1 / 10 ^ 12 = 0 then None else Some (mat3_scale H (h22 H + 1 / 10 ^ 12)))
      else Some (mat3_scale H (h22 H)))"

text \<open>The rotation and the scale factors: the \<open>try\<close> block and its \<open>except\<close> branch.\<close>

definition rotation_and_scales :: "svd_fn \<Rightarrow> mat2 \<Rightarrow> mat2 \<times> real \<times> real" where
  "rotation_and_scales svd A =
     (case svd A of
        Some (U, (s1, s2), Vt) \<Rightarrow>
          let R = mat2_mul U Vt in
          if mat2_det R < 0 then (mat2_mul U (negate_last_row Vt), s1, s2)
          else (R, s1, s2)
      | None \<Rightarrow> (mat2_eye, norm2 (m00 A) (m10 A), norm2 (m01 A) (m11 A)))"

definition decompose_homography :: "svd_fn \<Rightarrow> mat3 \<Rightarrow> transform_params option" where
  "decompose_homography svd H_img_to_template =
     (case normalize_h H_img_to_template of
        None \<Rightarrow> None
      | Some H \<Rightarrow>
          let A = Mat2 (h00 H) (h01 H) (h10 H) (h11 H);
              (R, s1, s2) = rotation_and_scales svd A;
              angle_rad = atan2 (m10 R) (m00 R);
              angle_deg = degrees angle_rad;
              S = mat2_mul (mat2_transpose R) A
          in Some \<lparr>rotation_deg = angle_deg, scale_x = s1, scale_y = s2, shear = m01 S,
                   tx = h02 H, ty = h12 H, p_h20 = h20 H, p_h21 = h21 H\<rparr>)"

section \<open>Perspective distortion (Segment.py)\<close>

record perspective_metrics =
  corner_points_image :: "real point list"
  side_lengths :: "real list"
  perspective_distortion_pct :: real

text \<open>
  \<open>cv2.perspectiveTransform\<close> on one point: the homogeneous image of \<open>(x, y)\<close> divided
  by its third coordinate \<open>w\<close>, and the origin when \<open>|w|\<close> is not above \<open>FLT_EPSILON\<close>.
\<close>

definition FLT_EPSILON :: real where
  "FLT_EPSILON = 1 / 2 ^ 23"

definition perspectiveTransform :: "mat3 \<Rightarrow> real point \<Rightarrow> real point" where
  "perspectiveTransform H p =
     (let x = fst p; y = snd p;
          w = h20 H * x + h21 H * y + h22 H
      in if \<bar>w\<bar> > FLT_EPSILON
         then ((h00 H * x + h01 H * y + h02 H) / w, (h10 H * x + h11 H * y + h12 H) / w)
         else (0, 0))"

definition TEMPLATE_W :: int where "TEMPLATE_W = 1700"
definition TEMPLATE_H :: int where "TEMPLATE_H = 2200"

definition template_corners :: "int \<Rightarrow> int \<Rightarrow> real point list" where
  "template_corners template_w template_h =
     [(0, 0), (real_of_int (template_w - 1), 0),
      (real_of_int (template_w - 1), real_of_int (template_h - 1)),
      (0, real_of_int (template_h - 1))]"

definition side_lens :: "real point list \<Rightarrow> real list" where
  "side_lens mapped = map (\<lambda>i. dist2 (mapped ! i) (mapped ! ((i + 1) mod 4))) [0..<4]"

definition measure_perspective_from_template_to_image ::
    "mat3 \<Rightarrow> int \<Rightarrow> int \<Rightarrow> perspective_metrics" where
  "measure_perspective_from_template_to_image H_template_to_img template_w template_h =
     (let corners = template_corners template_w template_h;
          mapped = map (perspectiveTransform H_template_to_img) corners;
          lens = side_lens mapped;
          distortion_pct =
            (if Min (set lens) \<le> 1 / 10 ^ 6 then 0
             else (Max (set lens) / Min (set lens) - 1) * 100)
      in \<lparr>corner_points_image = mapped, side_lengths = lens,
           perspective_distortion_pct = distortion_pct\<rparr>)"

text \<open>The metrics stored when no homography was used.\<close>

definition no_perspective :: perspective_metrics where
  "no_perspective =
     \<lparr>corner_points_image = [], side_lengths = [], perspective_distortion_pct = 0\<rparr>"

definition identity_params :: transform_params where
  "identity_params =
     \<lparr>rotation_deg = 0, scale_x = 1, scale_y = 1, shear = 0, tx = 0, ty = 0,
      p_h20 = 0, p_h21 = 0\<rparr>"

section \<open>Images and crops (Segment.py)\<close>

text \<open>
  An image is its size and its grey level (0 to 255, what \<open>cv2.cvtColor\<close> to grey gives)
  at each row \<open>y\<close> and column \<open>x\<close>.
\<close>

record image =
  height :: nat
  width :: nat
  pixel :: "nat \<Rightarrow> nat \<Rightarrow> nat"

definition count_pixels :: "image \<Rightarrow> (nat \<Rightarrow> bool) \<Rightarrow> nat" where
  "count_pixels img P =
     (\<Sum>y<height img. \<Sum>x<width img. if P (pixel img y x) then 1 else 0)"

definition sum_pixels :: "image \<Rightarrow> (nat \<Rightarrow> real) \<Rightarrow> real" where
  "sum_pixels img f = (\<Sum>y<height img. \<Sum>x<width img. f (pixel img y x))"

definition num_pixels :: "image \<Rightarrow> nat" where
  "num_pixels img = height img * width img"

text \<open>
  \<open>is_mostly_blank\<close>: \<open>white_pixels / total >= pct\<close>.  On an empty array the quotient is
  \<open>nan\<close> and the comparison false.
\<close>

definition is_mostly_blank :: "image option \<Rightarrow> nat \<Rightarrow> real \<Rightarrow> bool" where
  "is_mostly_blank img white_thresh pct =
     (case img of
        None \<Rightarrow> True
      | Some gray \<Rightarrow>
          let total = num_pixels gray;
              white_pixels = count_pixels gray (\<lambda>v. white_thresh \<le> v)
          in if total = 0 then False else real white_pixels / real total \<ge> pct)"

text \<open>\<open>np.var\<close> of the grey levels; \<open>nan\<close> on an empty array is \<open>None\<close>.\<close>

definition variance :: "image \<Rightarrow> real option" where
  "variance img =
     (let n = real (num_pixels img) in
      if n = 0 then None
      else let mean = sum_pixels img real / n
           in Some (sum_pixels img (\<lambda>v. (real v - mean) ^ 2) / n))"

text \<open>Python's \<open>round\<close> on a float: to the nearest integer, ties to the even one.\<close>

definition py_round :: "real \<Rightarrow> int" where
  "py_round x =
     (let f = \<lfloor>x\<rfloor>; d = x - real_of_int f
      in if d < 1 / 2 then f else if 1 / 2 < d then f + 1 else if even f then f else f + 1)"

record bbox =
  bbox_x :: real
  bbox_y :: real
  bbox_width :: real
  bbox_height :: real

definition crop_bbox_from_template_coords :: "image \<Rightarrow> bbox \<Rightarrow> int \<Rightarrow> image option" where
  "crop_bbox_from_template_coords warped_img b pad =
     (let x = py_round (bbox_x b) - pad;
          y = py_round (bbox_y b) - pad;
          w = py_round (bbox_width b) + 2 * pad;
          h = py_round (bbox_height b) + 2 * pad;
          Hh = int (height warped_img);
          Ww = int (width warped_img);
          x = max 0 x;
          y = max 0 y;
          w = (if x + w > Ww then Ww - x else w);
          h = (if y + h > Hh then Hh - y else h)
      in if w \<le> 0 \<or> h \<le> 0 then None
         else Some \<lparr>height = nat h, width = nat w,
                    pixel = (\<lambda>i j. pixel warped_img (nat y + i) (nat x + j))\<rparr>)"

section \<open>Alignment of one image (Segment.py)\<close>

definition CONFIDENCE_THRESHOLD :: real where "CONFIDENCE_THRESHOLD = 0.60"
definition RESIDUAL_MAD_THRESHOLD :: real where "RESIDUAL_MAD_THRESHOLD = 30.0"
definition ROTATION_THRESHOLD_DEG :: real where "ROTATION_THRESHOLD_DEG = 10.0"
definition SCALE_PERCENT_THRESHOLD :: real where "SCALE_PERCENT_THRESHOLD = 10.0"
definition PERSPECTIVE_DISTORTION_PCT :: real where "PERSPECTIVE_DISTORTION_PCT = 8.0"
definition MIN_DOC_AREA_RATIO :: real where "MIN_DOC_AREA_RATIO = 0.004"
definition SIZE_TOL_PCT :: real where "SIZE_TOL_PCT = 0.02"

text \<open>
  A contour as the detection loop reads it: \<open>cv2.contourArea(cnt)\<close> and the vertices of
  \<open>cv2.approxPolyDP(cnt, 0.02 * peri, True)\<close>.
\<close>

record contour =
  area :: real
  approx :: "int point list"

text \<open>
  The OpenCV and numpy calls of the two alignment functions, as parameters:
  \<^item> \<open>binarised_contours\<close>: for each binarisation that could be computed, in the order
    adaptive, adaptive_inv, otsu, otsu_inv, edges, the external contours of its closing;
  \<^item> \<open>getPerspectiveTransform\<close>, \<open>warpPerspective\<close> (\<open>None\<close> when it raises, as
    \<open>warp_image_with_H\<close> turns the exception into \<open>None\<close>), \<open>resize\<close> to the template size;
  \<^item> \<open>hough_points\<close>: the end points of the segments \<open>cv2.HoughLinesP\<close> finds on the edge
    image, \<open>None\<close> when it finds none; \<open>min_area_box\<close> is \<open>cv2.boxPoints(cv2.minAreaRect(pts))\<close>
    and \<open>polygon_area\<close> is \<open>cv2.contourArea\<close> of a point array;
  \<^item> \<open>homography_via_features\<close>: \<open>compute_homography_via_features(template_gray, img_gray)\<close>,
    ORB matching and RANSAC, with the statistics it stores;
  \<^item> \<open>svd\<close>: \<open>np.linalg.svd\<close>.
\<close>

record cvlib =
  binarised_contours :: "image \<Rightarrow> contour list list"
  getPerspectiveTransform :: "real point list \<Rightarrow> real point list \<Rightarrow> mat3"
  warpPerspective :: "image \<Rightarrow> mat3 \<Rightarrow> image option"
  resize :: "image \<Rightarrow> image"
  hough_points :: "image \<Rightarrow> real point list option"
  min_area_box :: "real point list \<Rightarrow> real point list"
  polygon_area :: "real point list \<Rightarrow> real"
  homography_via_features :: "image \<Rightarrow> mat3 option \<times> stats"
  svd :: svd_fn

datatype used_method_tag =
    Identity_size_match
  | Doc_detect
  | Identity_after_failed_detection
  | Simple_resize_fallback
  | Feature_homography

text \<open>The local variables the alignment fills, with their initial values.\<close>

record alignment =
  warped :: "image option"
  used_method :: "used_method_tag option"
  H_template_to_img :: "mat3 option"
  H_img_to_template :: "mat3 option"
  confidence :: real
  doc_area_ratio :: real

definition initial_alignment :: alignment where
  "initial_alignment =
     \<lparr>warped = None, used_method = None, H_template_to_img = None,
      H_img_to_template = None, confidence = 0, doc_area_ratio = 0\<rparr>"

definition size_diff_ok :: "image \<Rightarrow> bool" where
  "size_diff_ok img =
     (\<bar>real_of_int (int (width img) - TEMPLATE_W)\<bar> \<le> SIZE_TOL_PCT * real_of_int TEMPLATE_W \<and>
      \<bar>real_of_int (int (height img) - TEMPLATE_H)\<bar> \<le> SIZE_TOL_PCT * real_of_int TEMPLATE_H)"

definition real_point :: "int point \<Rightarrow> real point" where
  "real_point p = (real_of_int (fst p), real_of_int (snd p))"

text \<open>
  The inner loop over the ten largest contours: the first one that is large enough and
  approximated by four vertices gives the corners and the area ratio.
\<close>

fun scan_contours :: "real \<Rightarrow> contour list \<Rightarrow> (real point list \<times> real) option" where
  "scan_contours img_area [] = None"
| "scan_contours img_area (cnt # cnts) =
     (if area cnt < MIN_DOC_AREA_RATIO * img_area then scan_contours img_area cnts
      else if length (approx cnt) = 4
      then (case order_points (approx cnt) of
              Some ordered \<Rightarrow> Some (map real_point ordered, area cnt / img_area)
            | None \<Rightarrow> scan_contours img_area cnts)
      else scan_contours img_area cnts)"

text \<open>The outer loop over the binarisations; \<open>sorted(..., reverse=True)\<close> is stable.\<close>

fun scan_candidates :: "real \<Rightarrow> contour list list \<Rightarrow> (real point list \<times> real) option" where
  "scan_candidates img_area [] = None"
| "scan_candidates img_area (contours # rest) =
     (if contours = [] then scan_candidates img_area rest
      else case scan_contours img_area (take 10 (sort_key (\<lambda>c. - area c) contours)) of
             Some r \<Rightarrow> Some r
           | None \<Rightarrow> scan_candidates img_area rest)"

definition find_document :: "cvlib \<Rightarrow> image \<Rightarrow> (real point list \<times> real) option" where
  "find_document cv img =
     scan_candidates (real (height img * width img)) (binarised_contours cv img)"

text \<open>The Hough-lines fallback of \<open>process_single_image_with_alignment\<close>.\<close>

definition hough_fallback :: "cvlib \<Rightarrow> image \<Rightarrow> (real point list \<times> real) option" where
  "hough_fallback cv img =
     (case hough_points cv img of
        None \<Rightarrow> None
      | Some pts_arr \<Rightarrow>
          let box = min_area_box cv pts_arr
          in case order_points box of
               None \<Rightarrow> None
             | Some ordered \<Rightarrow>
                 Some (ordered, polygon_area cv box / real (height img * width img)))"

text \<open>
  The block under \<open># If found corners, compute homography\<close>: the warp is accepted when the
  matrix can be inverted, the warp succeeds and at most 90 percent of it is near-white.
\<close>

definition warp_found_corners ::
    "cvlib \<Rightarrow> image \<Rightarrow> (real point list \<times> real) option \<Rightarrow> alignment \<Rightarrow> alignment" where
  "warp_found_corners cv img found al =
     (case found of
        None \<Rightarrow> al
      | Some (found_corners, found_area_ratio) \<Rightarrow>
          if found_area_ratio > MIN_DOC_AREA_RATIO then
            let dst = template_corners TEMPLATE_W TEMPLATE_H;
                H_t2i = getPerspectiveTransform cv dst found_corners
            in case safe_inverse H_t2i of
                 None \<Rightarrow> al
               | Some H_i2t \<Rightarrow>
                   (case warpPerspective cv img H_i2t of
                      None \<Rightarrow> al
                    | Some warped_candidate \<Rightarrow>
                        if num_pixels warped_candidate \<noteq> 0 \<and>
                           real (count_pixels warped_candidate (\<lambda>v. 245 \<le> v))
                             / real (num_pixels warped_candidate) \<le> 0.90
                        then al\<lparr>warped := Some warped_candidate,
                                used_method := Some Doc_detect,
                                H_template_to_img := Some H_t2i,
                                H_img_to_template := Some H_i2t,
                                confidence := compute_alignment_confidence_from_stats
                                                empty_stats True found_area_ratio,
                                doc_area_ratio := found_area_ratio\<rparr>
                        else al)
          else al)"

text \<open>The last fallback, entered when \<open>warped is None\<close>.\<close>

definition fallback_to_resize :: "cvlib \<Rightarrow> image \<Rightarrow> alignment \<Rightarrow> alignment" where
  "fallback_to_resize cv img al =
     (if warped al = None then
        (if size_diff_ok img
         then al\<lparr>warped := Some img, used_method := Some Identity_after_failed_detection,
                 confidence := 0.5\<rparr>
         else al\<lparr>warped := Some (resize cv img), used_method := Some Simple_resize_fallback,
                 confidence := 0\<rparr>)
      else al)"

text \<open>The alignment of \<open>process_single_image\<close>.\<close>

definition align_single_image :: "cvlib \<Rightarrow> image \<Rightarrow> alignment" where
  "align_single_image cv img =
     (let al = initial_alignment in
      if size_diff_ok img
      then al\<lparr>warped := Some img, used_method := Some Identity_size_match, confidence := 0.95\<rparr>
      else fallback_to_resize cv img (warp_found_corners cv img (find_document cv img) al))"

text \<open>The first step of \<open>process_single_image_with_alignment\<close>: the feature homography.\<close>

definition try_feature_homography :: "cvlib \<Rightarrow> image \<Rightarrow> alignment \<Rightarrow> alignment" where
  "try_feature_homography cv img al =
     (case homography_via_features cv img of
        (None, st) \<Rightarrow> al
      | (Some H_t2i, st) \<Rightarrow>
          (case safe_inverse H_t2i of
             None \<Rightarrow> al
           | Some H_i2t \<Rightarrow>
               (case warpPerspective cv img H_i2t of
                  None \<Rightarrow> al
                | Some warped_candidate \<Rightarrow>
                    al\<lparr>warped := Some warped_candidate,
                       used_method := Some Feature_homography,
                       H_template_to_img := Some H_t2i,
                       H_img_to_template := Some H_i2t,
                       confidence := compute_alignment_confidence_from_stats st False 0\<rparr>)))"

text \<open>The contour detection with the Hough fallback when no contour was found.\<close>

definition find_document_or_lines :: "cvlib \<Rightarrow> image \<Rightarrow> (real point list \<times> real) option" where
  "find_document_or_lines cv img =
     (case find_document cv img of
        Some r \<Rightarrow> Some r
      | None \<Rightarrow> hough_fallback cv img)"

definition align_with_alignment :: "cvlib \<Rightarrow> image \<Rightarrow> alignment" where
  "align_with_alignment cv img =
     (let al = try_feature_homography cv img initial_alignment in
      if warped al = None then
        (if size_diff_ok img
         then al\<lparr>warped := Some img, used_method := Some Identity_size_match,
                 confidence := 0.95\<rparr>
         else fallback_to_resize cv img
                (warp_found_corners cv img (find_document_or_lines cv img) al))
      else al)"

section \<open>Metrics and the manual-check decision (Segment.py)\<close>

text \<open>
  The residual against the template, a blank white page of the template size: the mean
  of \<open>|255 - grey|\<close>.  For an image of another size the subtraction of the two arrays
  raises, and \<open>residual_mad\<close> stays \<open>None\<close>; every image that reaches this point has the
  template size or lies within two percent of it.
\<close>

definition residual_mad_vs_template :: "image \<Rightarrow> real option" where
  "residual_mad_vs_template w =
     (if int (height w) = TEMPLATE_H \<and> int (width w) = TEMPLATE_W
      then Some (sum_pixels w (\<lambda>v. \<bar>255 - real v\<bar>) / real (num_pixels w))
      else None)"

datatype error =
    Could_not_decode
  | Could_not_produce_warped
  | Non_finite_transform
  | Page_quad_not_found
  | Ambiguous_truth_value
  | Cannot_unpack_quad
  | Cv_error

text \<open>
  The transform parameters and perspective metrics of an alignment; \<open>None\<close> where
  \<open>decompose_homography\<close> has none.
\<close>

definition alignment_metrics ::
    "svd_fn \<Rightarrow> alignment \<Rightarrow> (transform_params \<times> perspective_metrics) option" where
  "alignment_metrics sv al =
     (case H_img_to_template al of
        Some H_i2t \<Rightarrow>
          (case decompose_homography sv H_i2t of
             None \<Rightarrow> None
           | Some decomp \<Rightarrow>
               (case H_template_to_img al of
                  Some H_t2i \<Rightarrow>
                    Some (decomp,
                          measure_perspective_from_template_to_image H_t2i TEMPLATE_W TEMPLATE_H)
                | None \<Rightarrow> Some (decomp, no_perspective)))
      | None \<Rightarrow> Some (identity_params, no_perspective))"

text \<open>
  The reason tags.  The source formats each measured value into the tag
  (\<open>low_confidence(0.42)\<close>); the constructor carries the value itself.
\<close>

datatype reason =
    Low_confidence real
  | High_residual_mad real
  | High_rotation real
  | Scale_change real
  | Perspective_distortion real
  | Mostly_blank_crop

definition max_scale_pct :: "transform_params \<Rightarrow> real" where
  "max_scale_pct tp = max (\<bar>scale_x tp - 1\<bar> * 100) (\<bar>scale_y tp - 1\<bar> * 100)"

definition manual_check_heuristics ::
    "real \<Rightarrow> real option \<Rightarrow> transform_params \<Rightarrow> perspective_metrics \<Rightarrow> reason list" where
  "manual_check_heuristics conf residual tp pm =
     (let manual_reasons = [];
          manual_reasons =
            (if conf < CONFIDENCE_THRESHOLD
             then manual_reasons @ [Low_confidence conf] else manual_reasons);
          manual_reasons =
            (case residual of
               Some r \<Rightarrow>
                 if r > RESIDUAL_MAD_THRESHOLD
                 then manual_reasons @ [High_residual_mad r] else manual_reasons
             | None \<Rightarrow> manual_reasons);
          manual_reasons =
            (if \<bar>rotation_deg tp\<bar> > ROTATION_THRESHOLD_DEG
             then manual_reasons @ [High_rotation (rotation_deg tp)] else manual_reasons);
          manual_reasons =
            (if max_scale_pct tp > SCALE_PERCENT_THRESHOLD
             then manual_reasons @ [Scale_change (max_scale_pct tp)] else manual_reasons);
          manual_reasons =
            (if perspective_distortion_pct pm > PERSPECTIVE_DISTORTION_PCT
             then manual_reasons @ [Perspective_distortion (perspective_distortion_pct pm)]
             else manual_reasons)
      in manual_reasons)"

datatype warning = Invalid_crop | Mostly_blank | Low_variance real

record label_row =
  label_name :: string
  row_bbox :: bbox
  image_name :: string

text \<open>The warnings of one crop of the aligned image.\<close>

definition crop_warnings :: "image \<Rightarrow> bbox \<Rightarrow> warning list" where
  "crop_warnings w b =
     (case crop_bbox_from_template_coords w b 8 of
        None \<Rightarrow> [Invalid_crop]
      | Some crop \<Rightarrow>
          (if is_mostly_blank (Some crop) 245 0.98 then [Mostly_blank] else []) @
          (case variance crop of
             Some var \<Rightarrow> if var < 20 then [Low_variance var] else []
           | None \<Rightarrow> []))"

text \<open>
  The loop over the label rows: the warnings of each crop are stored under its label, and
  a mostly blank crop appends its tag once and sets the flag.
\<close>

type_synonym crops_meta = "string \<rightharpoonup> bbox \<times> warning list"

fun crop_loop ::
    "image \<Rightarrow> label_row list \<Rightarrow> crops_meta \<times> reason list \<times> bool \<Rightarrow>
     crops_meta \<times> reason list \<times> bool" where
  "crop_loop w [] st = st"
| "crop_loop w (row # rows) (meta, manual_reasons, manual_flag) =
     (let warnings = crop_warnings w (row_bbox row);
          meta = meta(label_name row \<mapsto> (row_bbox row, warnings))
      in if length warnings > 0 \<and> Mostly_blank \<in> set warnings
         then (if Mostly_blank_crop \<notin> set manual_reasons
               then crop_loop w rows (meta, manual_reasons @ [Mostly_blank_crop], True)
               else crop_loop w rows (meta, manual_reasons, manual_flag))
         else crop_loop w rows (meta, manual_reasons, manual_flag))"

text \<open>
  The summary of \<open>process_single_image\<close>, without its presentation fields (the annotated
  JPEG, the processing notes, the region list and the quality hints).
\<close>

record summary =
  s_used_method :: "used_method_tag option"
  alignment_confidence :: real
  residual_mad :: "real option"
  manual_check_needed :: bool
  manual_check_reasons :: "reason list"
  s_transform_params :: transform_params
  s_perspective_metrics :: perspective_metrics
  s_doc_area_ratio :: real
  crops :: crops_meta

definition process_single_image ::
    "cvlib \<Rightarrow> image option \<Rightarrow> label_row list \<Rightarrow> error + summary" where
  "process_single_image cv decoded df =
     (case decoded of
        None \<Rightarrow> Inl Could_not_decode
      | Some img \<Rightarrow>
          let al = align_single_image cv img in
          case warped al of
            None \<Rightarrow> Inl Could_not_produce_warped
          | Some w \<Rightarrow>
              let residual = residual_mad_vs_template w in
              case alignment_metrics (svd cv) al of
                None \<Rightarrow> Inl Non_finite_transform
              | Some (tp, pm) \<Rightarrow>
                  let manual_reasons = manual_check_heuristics (confidence al) residual tp pm;
                      manual_flag = (length manual_reasons > 0);
                      (meta, manual_reasons, manual_flag) =
                         crop_loop w df (Map.empty, manual_reasons, manual_flag)
                  in Inr \<lparr>s_used_method = used_method al,
                          alignment_confidence = confidence al,
                          residual_mad = residual,
                          manual_check_needed = manual_flag,
                          manual_check_reasons = manual_reasons,
                          s_transform_params = tp,
                          s_perspective_metrics = pm,
                          s_doc_area_ratio = doc_area_ratio al,
                          crops = meta\<rparr>)"

text \<open>
  \<open>process_single_image_with_alignment\<close> returns the aligned image and the same metadata,
  without crops.
\<close>

definition process_single_image_with_alignment ::
    "cvlib \<Rightarrow> image \<Rightarrow> error + image \<times> summary" where
  "process_single_image_with_alignment cv img =
     (let al = align_with_alignment cv img in
      case warped al of
        None \<Rightarrow> Inl Could_not_produce_warped
      | Some w \<Rightarrow>
          let residual = residual_mad_vs_template w in
          case alignment_metrics (svd cv) al of
            None \<Rightarrow> Inl Non_finite_transform
          | Some (tp, pm) \<Rightarrow>
              let manual_reasons = manual_check_heuristics (confidence al) residual tp pm;
                  manual_flag = (length manual_reasons > 0)
              in Inr (w, \<lparr>s_used_method = used_method al,
                          alignment_confidence = confidence al,
                          residual_mad = residual,
                          manual_check_needed = manual_flag,
                          manual_check_reasons = manual_reasons,
                          s_transform_params = tp,
                          s_perspective_metrics = pm,
                          s_doc_area_ratio = doc_area_ratio al,
                          crops = Map.empty\<rparr>))"

text \<open>The crops of the aligned image that are classified mostly blank.\<close>

definition blank_crop :: "image \<Rightarrow> label_row \<Rightarrow> bool" where
  "blank_crop w row =
     (case crop_bbox_from_template_coords w (row_bbox row) 8 of
        None \<Rightarrow> False
      | Some crop \<Rightarrow> is_mostly_blank (Some crop) 245 0.98)"

section \<open>The page aligner (train.py)\<close>

text \<open>
  The truth value Python takes of a numpy array in \<open>a or b\<close>: an empty array is false,
  an array of one element has the truth value of the element, and any larger array raises
  \<open>ValueError\<close>.  A point array holds two numbers per point.
\<close>

definition array_truth :: "real point list \<Rightarrow> error + bool" where
  "array_truth arr = (if arr = [] then Inr False else Inl Ambiguous_truth_value)"

text \<open>\<open>a or b\<close> for a detector result \<open>a\<close> (\<open>None\<close> or an array) and the rest \<open>b\<close> of the chain.\<close>

definition py_or ::
    "real point list option \<Rightarrow> (error + real point list option) \<Rightarrow>
     error + real point list option" where
  "py_or a b =
     (case a of
        None \<Rightarrow> b
      | Some arr \<Rightarrow>
          (case array_truth arr of
             Inl e \<Rightarrow> Inl e
           | Inr t \<Rightarrow> if t then Inr (Some arr) else b))"

text \<open>
  The three detectors are built from OpenCV calls and return \<open>None\<close> or the array of
  \<open>order_corners\<close>; they are parameters, as are the preprocessing and the warp.
\<close>

record detectors =
  preprocess_page :: "image \<Rightarrow> image \<times> image"
  detect_quad_bright :: "image \<Rightarrow> real point list option"
  detect_quad_lsd :: "image \<Rightarrow> real point list option"
  detect_quad_minrect :: "image \<Rightarrow> real point list option"
  four_point_warp :: "image \<Rightarrow> real point list \<Rightarrow> int \<times> int \<Rightarrow> image \<times> mat3"
  flatten_background :: "image \<Rightarrow> image"

definition A4_W :: int where "A4_W = 2480"
definition A4_H :: int where "A4_H = 3508"

record page_meta =
  meta_w :: int
  meta_h :: int
  portrait :: bool

text \<open>
  \<open>align_page\<close>: \<open>preprocess_page\<close> gives the upscaled image and the glare-free image the
  detectors read; a quad of other than four points fails in the unpacking
  \<open>tl,tr,br,bl = quad\<close>, which the detectors' results never do.
\<close>

definition align_page :: "detectors \<Rightarrow> image \<Rightarrow> error + image \<times> mat3 \<times> page_meta" where
  "align_page d bgr =
     (let (img, pre) = preprocess_page d bgr in
      case py_or (detect_quad_bright d pre)
             (py_or (detect_quad_lsd d pre) (Inr (detect_quad_minrect d pre))) of
        Inl e \<Rightarrow> Inl e
      | Inr None \<Rightarrow> Inl Page_quad_not_found
      | Inr (Some quad) \<Rightarrow>
          (case quad of
             [q_tl, q_tr, q_br, q_bl] \<Rightarrow>
               let wA = dist2 q_bl q_br; wB = dist2 q_tl q_tr;
                   hA = dist2 q_br q_tr; hB = dist2 q_bl q_tl;
                   is_portrait = (max hA hB \<ge> max wA wB);
                   target = (if is_portrait then (A4_W, A4_H) else (A4_H, A4_W));
                   (warped_img, H) = four_point_warp d img quad target;
                   out = flatten_background d warped_img
               in Inr (out, H, \<lparr>meta_w = int (width out), meta_h = int (height out),
                                 portrait = is_portrait\<rparr>)
           | _ \<Rightarrow> Inl Cannot_unpack_quad))"

section \<open>Conditions and sample scenes used in the statements\<close>

text \<open>
  Detection has failed when the contour (and, in \<open>process_single_image_with_alignment\<close>,
  the feature and Hough) steps leave \<open>warped\<close> at \<open>None\<close>.
\<close>

definition detection_failed :: "cvlib \<Rightarrow> image \<Rightarrow> bool" where
  "detection_failed cv img =
     (warped (warp_found_corners cv img (find_document cv img) initial_alignment) = None)"

definition all_detection_failed :: "cvlib \<Rightarrow> image \<Rightarrow> bool" where
  "all_detection_failed cv img =
     (let al = try_feature_homography cv img initial_alignment
      in warped al = None \<and>
         warped (warp_found_corners cv img (find_document_or_lines cv img) al) = None)"

text \<open>
  The manual-review conditions in the words of the specification, each with its tag:
  confidence below 0.60, residual above 30.0, rotation beyond 10 degrees, scale change
  above 10 percent, perspective distortion above 8 percent, and a mostly blank crop.
\<close>

definition crop_mostly_blank :: "image \<Rightarrow> label_row \<Rightarrow> bool" where
  "crop_mostly_blank w row =
     (case crop_bbox_from_template_coords w (row_bbox row) 8 of
        None \<Rightarrow> False
      | Some crop \<Rightarrow>
          real (count_pixels crop (\<lambda>v. 245 \<le> v)) \<ge> 0.98 * real (num_pixels crop))"

definition review_conditions :: "summary \<Rightarrow> bool \<Rightarrow> (bool \<times> reason) list" where
  "review_conditions s blank =
     (let tp = s_transform_params s;
          pct = perspective_distortion_pct (s_perspective_metrics s);
          scale_pct = max \<bar>scale_x tp - 1\<bar> \<bar>scale_y tp - 1\<bar> * 100
      in [(alignment_confidence s < 0.60, Low_confidence (alignment_confidence s)),
          (case residual_mad s of
             None \<Rightarrow> (False, High_residual_mad 0)
           | Some r \<Rightarrow> (r > 30.0, High_residual_mad r)),
          (\<bar>rotation_deg tp\<bar> > 10, High_rotation (rotation_deg tp)),
          (scale_pct > 10, Scale_change scale_pct),
          (pct > 8, Perspective_distortion pct),
          (blank, Mostly_blank_crop)])"

text \<open>
  A sample scene: a blank white photograph of 100 by 100 pixels.  No feature is matched,
  the one contour is the frame of the image, its warp is entirely white and is rejected,
  and the image is resized to the template.  The label row is the first of the default
  template of \<open>read_bboxes\<close>.
\<close>

definition white_image :: "nat \<Rightarrow> nat \<Rightarrow> image" where
  "white_image h w = \<lparr>height = h, width = w, pixel = (\<lambda>y x. 255)\<rparr>"

definition blank_scan_cv :: cvlib where
  "blank_scan_cv =
     \<lparr>binarised_contours = (\<lambda>img. [[\<lparr>area = 9801, approx = [(0, 0), (0, 99), (99, 99), (99, 0)]\<rparr>]]),
      getPerspectiveTransform = (\<lambda>src dst. Mat3 (99 / 1699) 0 0  0 (99 / 2199) 0  0 0 1),
      warpPerspective = (\<lambda>img H. Some (white_image 2200 1700)),
      resize = (\<lambda>img. white_image 2200 1700),
      hough_points = (\<lambda>img. None),
      min_area_box = (\<lambda>pts. pts),
      polygon_area = (\<lambda>pts. 0),
      homography_via_features = (\<lambda>img. (None, match_stats 0 0 Infinity)),
      svd = (\<lambda>A. None)\<rparr>"

definition q1_row :: label_row where
  "q1_row = \<lparr>label_name = ''Q1'',
             row_bbox = \<lparr>bbox_x = 100, bbox_y = 200, bbox_width = 300, bbox_height = 150\<rparr>,
             image_name = ''template.jpg''\<rparr>"

definition blank_scan_summary :: summary where
  "blank_scan_summary = \<lparr>s_used_method = Some Simple_resize_fallback,
          alignment_confidence = 0,
          residual_mad = Some 0,
          manual_check_needed = True,
          manual_check_reasons = [Low_confidence 0, Mostly_blank_crop],
          s_transform_params = identity_params,
          s_perspective_metrics = no_perspective,
          s_doc_area_ratio = 0,
          crops = [''Q1'' \<mapsto> (row_bbox q1_row, [Mostly_blank, Low_variance 0])]\<rparr>"



section \<open>The final crop (model.py)\<close>

text \<open>
  \<open>int(x)\<close> on a float truncates towards zero.  For an image extent \<open>n\<close> the products
  \<open>0.01 * n\<close> and \<open>0.99 * n\<close> are rounded by the float multiplication, but never across an
  integer: the truncation is the one of the exact product.
\<close>

definition py_int :: "real \<Rightarrow> int" where
  "py_int x = (if 0 \<le> x then \<lfloor>x\<rfloor> else \<lceil>x\<rceil>)"

text \<open>
  Python's slice \<open>a[lo:hi]\<close> of an axis of length \<open>n\<close>: a negative bound counts from the
  end, both bounds are clamped to the axis, and an inverted range is empty.
\<close>

definition slice_bound :: "int \<Rightarrow> int \<Rightarrow> int" where
  "slice_bound n i = (if i < 0 then max (i + n) 0 else min i n)"

definition slice_len :: "int \<Rightarrow> int \<Rightarrow> int \<Rightarrow> int" where
  "slice_len n lo hi = max 0 (slice_bound n hi - slice_bound n lo)"

text \<open>
  What \<open>final_hybrid_crop_after_deskew\<close> returns: the image itself, or the view
  \<open>rgb[y0:y1, x0:x1]\<close>.
\<close>

datatype crop_region = Unmodified | Slice int int int int

text \<open>Height and width of the returned array, for an image of height \<open>H\<close> and width \<open>W\<close>.\<close>

fun region_size :: "int \<Rightarrow> int \<Rightarrow> crop_region \<Rightarrow> int \<times> int" where
  "region_size H W Unmodified = (H, W)"
| "region_size H W (Slice y0 y1 x0 x1) = (slice_len H y0 y1, slice_len W x0 x1)"

text \<open>
  The function reads the image through library calls only: \<open>H, W\<close> is the shape, \<open>rows\<close> and
  \<open>cols\<close> are the indices \<open>np.where\<close> returns for the horizontal and vertical ink projections
  above their thresholds (ascending), and \<open>b2\<close> is the paper box of \<open>box_from_mask\<close>,
  \<open>(x, y, w, h)\<close> or \<open>None\<close>.  The body below is the arithmetic on these values.
\<close>

definition final_hybrid_crop_after_deskew ::
    "int \<Rightarrow> int \<Rightarrow> int list \<Rightarrow> int list \<Rightarrow> (int \<times> int \<times> int \<times> int) option \<Rightarrow> int \<Rightarrow>
     crop_region" where
  "final_hybrid_crop_after_deskew H W rows cols b2 pad =
     (let lo_x = py_int (0.01 * real_of_int W); lo_y = py_int (0.01 * real_of_int H);
          hi_x = py_int (0.99 * real_of_int W); hi_y = py_int (0.99 * real_of_int H)
      in
      if rows = [] \<or> cols = [] then
        (case b2 of
           None \<Rightarrow> Unmodified
         | Some (x2, y2, w2, h2) \<Rightarrow>
             let x0 = max lo_x (x2 - pad); y0 = max lo_y (y2 - pad);
                 x1 = min hi_x (x2 + w2 + pad); y1 = min hi_y (y2 + h2 + pad)
             in Slice y0 y1 x0 x1)
      else
        let y0_i = hd rows; y1_i = last rows;
            x0_i = hd cols; x1_i = last cols
        in case b2 of
             None \<Rightarrow>
               let x0 = max lo_x (x0_i - pad); y0 = max lo_y (y0_i - pad);
                   x1 = min hi_x (x1_i + pad); y1 = min hi_y (y1_i + pad)
               in if y1 \<le> y0 \<or> x1 \<le> x0 then Unmodified else Slice y0 y1 x0 x1
           | Some (x2, y2, w2, h2) \<Rightarrow>
               let x0 = max lo_x (max x0_i x2 - pad);
                   y0 = max lo_y (max y0_i y2 - pad);
                   x1 = min hi_x (min x1_i (x2 + w2) + pad);
                   y1 = min hi_y (min y1_i (y2 + h2) + pad)
               in if y1 \<le> y0 \<or> x1 \<le> x0 then
                    let xa0 = max lo_x (x0_i - pad); ya0 = max lo_y (y0_i - pad);
                        xa1 = min hi_x (x1_i + pad); ya1 = min hi_y (y1_i + pad);
                        xb0 = max lo_x (x2 - pad); yb0 = max lo_y (y2 - pad);
                        xb1 = min hi_x (x2 + w2 + pad); yb1 = min hi_y (y2 + h2 + pad);
                        area_a = max 0 (xa1 - xa0) * max 0 (ya1 - ya0);
                        area_b = max 0 (xb1 - xb0) * max 0 (yb1 - yb0)
                    in if area_b \<noteq> 0 \<and> area_b < area_a
                       then Slice yb0 yb1 xb0 xb1
                       else Slice ya0 ya1 xa0 xa1
                  else Slice y0 y1 x0 x1)"

text \<open>
  The property of the specification: the returned region has positive height and width
  and lies inside the image.
\<close>

definition region_ok :: "int \<Rightarrow> int \<Rightarrow> crop_region \<Rightarrow> bool" where
  "region_ok H W r =
     (case r of
        Unmodified \<Rightarrow> 0 < H \<and> 0 < W
      | Slice y0 y1 x0 x1 \<Rightarrow> 0 \<le> y0 \<and> y0 < y1 \<and> y1 \<le> H \<and> 0 \<le> x0 \<and> x0 < x1 \<and> x1 \<le> W)"

section \<open>Row segmentation (model.py)\<close>

type_synonym box = "int \<times> int \<times> int \<times> int"

text \<open>The index \<open>i\<close> lies in the slice \<open>lo:hi\<close> of an axis of length \<open>n\<close>.\<close>

definition in_slice :: "int \<Rightarrow> int \<Rightarrow> int \<Rightarrow> int \<Rightarrow> bool" where
  "in_slice n lo hi i = (slice_bound n lo \<le> i \<and> i < slice_bound n hi)"

text \<open>
  The binarised image of \<open>split_rows\<close>: 255 where the grey level is above the local
  threshold \<open>T\<close> (the result of \<open>threshold_local\<close>, a library call), and 0 inside the answer
  band, where the mask is 0.
\<close>

definition masked_bw :: "image \<Rightarrow> (nat \<Rightarrow> nat \<Rightarrow> real) \<Rightarrow> box \<Rightarrow> nat \<Rightarrow> nat \<Rightarrow> nat" where
  "masked_bw gray T band y x =
     (case band of (ex_x, ex_y, ex_w, ex_h) \<Rightarrow>
        let mask = (if in_slice (int (height gray)) ex_y (ex_y + ex_h) (int y) \<and>
                       in_slice (int (width gray)) ex_x (ex_x + ex_w) (int x)
                    then 0 else 255 :: nat);
            bw = (if real (pixel gray y x) > T y x then 255 else 0 :: nat)
        in if mask = 255 \<and> bw = 255 then 255 else 0)"

text \<open>\<open>proj = np.sum(255 - bw, axis=1)\<close> and \<open>thresh = np.mean(proj) * 0.4\<close>.\<close>

definition row_projection :: "image \<Rightarrow> (nat \<Rightarrow> nat \<Rightarrow> real) \<Rightarrow> box \<Rightarrow> nat \<Rightarrow> nat" where
  "row_projection gray T band y = (\<Sum>x<width gray. 255 - masked_bw gray T band y x)"

definition projection_threshold :: "image \<Rightarrow> (nat \<Rightarrow> nat \<Rightarrow> real) \<Rightarrow> box \<Rightarrow> real" where
  "projection_threshold gray T band =
     (if height gray = 0 then 0
      else real (\<Sum>y<height gray. row_projection gray T band y) / real (height gray) * 0.4)"

text \<open>
  The loop \<open>for y in range(H)\<close> with its variables \<open>segments\<close>, \<open>in_seg\<close> and \<open>y0\<close>:
  \<open>is_ink y\<close> is \<open>proj[y] > thresh\<close>.
\<close>

fun scan_rows ::
    "(int \<Rightarrow> bool) \<Rightarrow> int \<Rightarrow> int \<Rightarrow> int \<Rightarrow> int list \<Rightarrow> box list \<times> bool \<times> int \<Rightarrow>
     box list \<times> bool \<times> int" where
  "scan_rows is_ink H W min_h [] st = st"
| "scan_rows is_ink H W min_h (y # ys) (segments, in_seg, y0) =
     (if is_ink y \<and> \<not> in_seg then scan_rows is_ink H W min_h ys (segments, True, y)
      else if (\<not> is_ink y \<or> y = H - 1) \<and> in_seg then
        (let y1 = y in
         if y1 - y0 \<ge> min_h
         then scan_rows is_ink H W min_h ys
                (segments @ [(0, max 0 (y0 - 4), W, min (H - 1) (y1 + 4) - max 0 (y0 - 4))],
                 False, y0)
         else scan_rows is_ink H W min_h ys (segments, False, y0))
      else scan_rows is_ink H W min_h ys (segments, in_seg, y0))"

text \<open>The loop that merges a segment into \<open>merged[-1]\<close> when the gap is at most 12.\<close>

fun merge_segments :: "box list \<Rightarrow> box list \<Rightarrow> box list" where
  "merge_segments [] merged = merged"
| "merge_segments (seg # rest) merged =
     (if merged = [] then merge_segments rest (merged @ [seg])
      else
        case (seg, last merged) of ((x, y, w, h), (px, py, pw, ph)) \<Rightarrow>
          if y \<le> py + ph + 12
          then merge_segments rest (butlast merged @ [(px, py, pw, (y + h) - py)])
          else merge_segments rest (merged @ [seg]))"

text \<open>The loop that cuts the rows at \<open>top_cut\<close>.\<close>

fun cut_rows :: "int \<Rightarrow> box list \<Rightarrow> box list" where
  "cut_rows top_cut [] = []"
| "cut_rows top_cut ((x, y, w, h) # rest) =
     (let y2 = max y top_cut in
      if (y + h) > top_cut \<and> (y2 - y) < h
      then (x, y2, w, (y + h) - y2) # cut_rows top_cut rest
      else cut_rows top_cut rest)"

definition top_cut_of :: "image \<Rightarrow> real \<Rightarrow> int" where
  "top_cut_of gray min_y_frac = py_int (real (height gray) * min_y_frac)"

definition split_rows :: "image \<Rightarrow> (nat \<Rightarrow> nat \<Rightarrow> real) \<Rightarrow> box \<Rightarrow> real \<Rightarrow> box list" where
  "split_rows gray T band min_y_frac =
     (let H = int (height gray); W = int (width gray);
          thresh = projection_threshold gray T band;
          is_ink = (\<lambda>y. real (row_projection gray T band (nat y)) > thresh);
          min_h = max 40 (H div 40);
          segments = fst (scan_rows is_ink H W min_h [0..H - 1] ([], False, 0));
          merged = merge_segments segments [];
          top_cut = top_cut_of gray min_y_frac
      in cut_rows top_cut merged)"

text \<open>The decimal digits of a number, as \<open>f"q{qid}"\<close> prints them.\<close>

fun str_nat :: "nat \<Rightarrow> string" where
  "str_nat n =
     (if n < 10 then [char_of (48 + n)]
      else str_nat (n div 10) @ [char_of (48 + n mod 10)])"

declare str_nat.simps [simp del]

record Row =
  row_id :: string
  bbox :: box
  answer_box_bbox :: "box option"
  row_type :: string
  row_confidence :: real
  row_image :: "string option"
  answer_image :: "string option"

text \<open>
  The candidates for the answer box of a row: of the bounding rectangles \<open>(X, Y, W, H)\<close> of
  the contours found in the band, the square-ish ones of side 12 to 200, each with the
  distance of its centre from the middle \<open>ry\<close> of the row; \<open>min\<close> takes the first nearest.
\<close>

definition box_candidates :: "int \<Rightarrow> int \<Rightarrow> box list \<Rightarrow> (real \<times> box) list" where
  "box_candidates y_top ry rects =
     map (\<lambda>(X, Y, W, H). (\<bar>real_of_int y_top + (real_of_int Y + real_of_int H / 2) - real_of_int ry\<bar>,
                            (X, Y, W, H)))
       (filter (\<lambda>(X, Y, W, H).
                  0.75 \<le> real_of_int W / real_of_int H \<and> real_of_int W / real_of_int H \<le> 1.25 \<and>
                  12 \<le> W \<and> W \<le> 200 \<and> 12 \<le> H \<and> H \<le> 200) rects)"

fun first_min :: "(real \<times> box) \<Rightarrow> (real \<times> box) list \<Rightarrow> real \<times> box" where
  "first_min best [] = best"
| "first_min best (c # cs) = (if fst c < fst best then first_min c cs else first_min best cs)"

text \<open>
  \<open>band_rects lo hi left right\<close> stands for \<open>cv2.adaptiveThreshold\<close> and \<open>cv2.findContours\<close>
  on \<open>gray[lo:hi, left:right]\<close> followed by \<open>cv2.boundingRect\<close> of each contour; OpenCV
  raises on an empty array (\<open>Inl\<close>).
\<close>

type_synonym band_rects = "int \<Rightarrow> int \<Rightarrow> int \<Rightarrow> int \<Rightarrow> error + box list"

definition make_row :: "band_rects \<Rightarrow> box \<Rightarrow> nat \<Rightarrow> box \<Rightarrow> error + Row" where
  "make_row rects band qid r =
     (case (band, r) of ((b_x, b_y, b_w, b_h), (x, y, w, h)) \<Rightarrow>
        let ry = y + h div 2;
            has = (b_y \<le> ry \<and> ry \<le> b_y + b_h)
        in if has then
             (case rects (max b_y y) (min (b_y + b_h) (y + h)) b_x (b_x + b_w) of
                Inl e \<Rightarrow> Inl e
              | Inr found \<Rightarrow>
                  let cand = box_candidates (max b_y y) ry found;
                      ab = (case cand of
                              [] \<Rightarrow> None
                            | c # cs \<Rightarrow>
                                (case snd (first_min c cs) of
                                   (X, Y, W, H) \<Rightarrow> Some (b_x + X, max b_y y + Y, W, H)))
                  in Inr \<lparr>row_id = ''q'' @ str_nat qid, bbox = (x, y, w, h),
                          answer_box_bbox = ab, row_type = ''mcq'', row_confidence = 0.86,
                          row_image = None, answer_image = None\<rparr>)
           else Inr \<lparr>row_id = ''q'' @ str_nat qid, bbox = (x, y, w, h),
                     answer_box_bbox = None, row_type = ''text'', row_confidence = 0.72,
                     row_image = None, answer_image = None\<rparr>)"

text \<open>The loop of \<open>attach_answer_boxes\<close> over the sorted rows, with \<open>qid\<close> counting up.\<close>

fun attach_loop :: "band_rects \<Rightarrow> box \<Rightarrow> nat \<Rightarrow> box list \<Rightarrow> error + Row list" where
  "attach_loop rects band qid [] = Inr []"
| "attach_loop rects band qid (r # rs) =
     (case make_row rects band qid r of
        Inl e \<Rightarrow> Inl e
      | Inr row \<Rightarrow>
          (case attach_loop rects band (Suc qid) rs of
             Inl e \<Rightarrow> Inl e
           | Inr out \<Rightarrow> Inr (row # out)))"

text \<open>\<open>sorted(rows, key=lambda r: r[1])\<close> is stable.\<close>

definition attach_answer_boxes :: "band_rects \<Rightarrow> box list \<Rightarrow> box \<Rightarrow> error + Row list" where
  "attach_answer_boxes rects rows band =
     attach_loop rects band 1 (sort_key (\<lambda>r. fst (snd r)) rows)"

definition row_top :: "Row \<Rightarrow> int" where
  "row_top r = fst (snd (bbox r))"

definition row_height :: "Row \<Rightarrow> int" where
  "row_height r = snd (snd (snd (bbox r)))"

text \<open>
  A sample page of 120 rows and 4 columns: black in the rows 0 to 40 and 70 to 119, white
  in between, with the local threshold at 100 everywhere.  The answer band is the last
  column from row 60 down.  The contour search finds nothing in the band.
\<close>

definition ruled_page :: image where
  "ruled_page = \<lparr>height = 120, width = 4, pixel = (\<lambda>y x. if y \<le> 40 \<or> 70 \<le> y then 0 else 255)\<rparr>"

definition ruled_threshold :: "nat \<Rightarrow> nat \<Rightarrow> real" where
  "ruled_threshold y x = 100"

definition ruled_band :: box where
  "ruled_band = (3, 60, 1, 60)"

definition no_rects :: band_rects where
  "no_rects lo hi left right = Inr []"

text \<open>The two rows of the sample page for the cutoff fraction 0.1.\<close>

definition ruled_q1 :: Row where
  "ruled_q1 = \<lparr>row_id = ''q1'', bbox = (0, 12, 4, 33), answer_box_bbox = None,
               row_type = ''text'', row_confidence = 0.72, row_image = None, answer_image = None\<rparr>"

definition ruled_q2 :: Row where
  "ruled_q2 = \<lparr>row_id = ''q2'', bbox = (0, 66, 4, 53), answer_box_bbox = None,
               row_type = ''mcq'', row_confidence = 0.86, row_image = None, answer_image = None\<rparr>"

text \<open>Top and height of a box, and the relations between the rows of the three stages.\<close>

definition box_top :: "box \<Rightarrow> int" where "box_top b = fst (snd b)"

definition box_height :: "box \<Rightarrow> int" where "box_height b = snd (snd (snd b))"

definition scan_inv :: "int \<Rightarrow> box list \<times> bool \<times> int \<Rightarrow> bool" where
  "scan_inv cur st =
     (case st of (segments, in_seg, y0) \<Rightarrow>
        0 \<le> cur \<and> 0 \<le> y0 \<and> sorted_wrt (<) (map box_top segments) \<and>
        (\<forall>b\<in>set segments. 0 < box_height b \<and> box_top b + 40 \<le> cur) \<and>
        (in_seg \<longrightarrow> y0 < cur \<and> (\<forall>b\<in>set segments. box_top b + 40 \<le> y0)))"

definition gapped :: "box \<Rightarrow> box \<Rightarrow> bool" where
  "gapped a b = (box_top a + box_height a + 12 < box_top b)"

definition clear_of :: "box \<Rightarrow> box \<Rightarrow> bool" where
  "clear_of a b = (box_top a + box_height a < box_top b)"

section \<open>Rotations and sample decompositions\<close>


text \<open>The rotation by the angle \<open>t\<close> (in radians).\<close>

definition rotation2 :: "real \<Rightarrow> mat2" where
  "rotation2 t = Mat2 (cos t) (- sin t) (sin t) (cos t)"


section \<open>Properties of the alignment confidence\<close>








section \<open>Properties of the corner canonicalisation\<close>














section \<open>Properties of the alignment stage\<close>

lemma warp_found_corners_cases:
  "warp_found_corners cv img found al = al \<or>
   (used_method (warp_found_corners cv img found al) = Some Doc_detect \<and>
    warped (warp_found_corners cv img found al) \<noteq> None)"
  by (auto simp: warp_found_corners_def Let_def split: option.splits prod.splits)

lemma try_feature_cases:
  "try_feature_homography cv img al = al \<or>
   (used_method (try_feature_homography cv img al) = Some Feature_homography \<and>
    warped (try_feature_homography cv img al) \<noteq> None)"
  by (auto simp: try_feature_homography_def split: option.splits prod.splits)

lemma fallback_not_ok:
  "\<not> size_diff_ok img \<Longrightarrow> warped al = None \<Longrightarrow>
   fallback_to_resize cv img al =
     al\<lparr>warped := Some (resize cv img), used_method := Some Simple_resize_fallback, confidence := 0\<rparr>"
  by (simp add: fallback_to_resize_def)

lemma align_single_failed:
  assumes "\<not> size_diff_ok img" "detection_failed cv img"
  shows "align_single_image cv img =
     initial_alignment\<lparr>warped := Some (resize cv img), used_method := Some Simple_resize_fallback, confidence := 0\<rparr>"
proof -
  let ?a = "warp_found_corners cv img (find_document cv img) initial_alignment"
  have w: "warped ?a = None" using assms(2) by (simp add: detection_failed_def)
  then have "?a = initial_alignment" using warp_found_corners_cases [of cv img "find_document cv img" initial_alignment] by auto
  then show ?thesis using assms(1) w by (simp add: align_single_image_def fallback_not_ok)
qed

lemma align_with_failed:
  assumes "\<not> size_diff_ok img" "all_detection_failed cv img"
  shows "align_with_alignment cv img =
     initial_alignment\<lparr>warped := Some (resize cv img), used_method := Some Simple_resize_fallback, confidence := 0\<rparr>"
proof -
  let ?f = "try_feature_homography cv img initial_alignment"
  let ?a = "warp_found_corners cv img (find_document_or_lines cv img) ?f"
  have wf: "warped ?f = None" and w: "warped ?a = None"
    using assms(2) by (simp_all add: all_detection_failed_def Let_def)
  have f: "?f = initial_alignment" using wf try_feature_cases [of cv img initial_alignment] by auto
  have "?a = ?f" using w warp_found_corners_cases [of cv img "find_document_or_lines cv img" ?f] by auto
  then have a: "?a = initial_alignment" using f by simp
  show ?thesis using assms(1) wf w a f by (simp add: align_with_alignment_def Let_def fallback_not_ok)
qed

lemma align_single_never_identity_after:
  "used_method (align_single_image cv img) \<noteq> Some Identity_after_failed_detection"
proof (cases "size_diff_ok img")
  case True
  then show ?thesis by (simp add: align_single_image_def)
next
  case False
  let ?a = "warp_found_corners cv img (find_document cv img) initial_alignment"
  show ?thesis
  proof (cases "warped ?a = None")
    case True
    then have "detection_failed cv img" by (simp add: detection_failed_def)
    then show ?thesis using align_single_failed [OF False] by simp
  next
    case False
    then have "used_method ?a = Some Doc_detect"
      using warp_found_corners_cases [of cv img "find_document cv img" initial_alignment]
      by (auto simp: initial_alignment_def)
    then show ?thesis using False \<open>\<not> size_diff_ok img\<close>
      by (simp add: align_single_image_def fallback_to_resize_def)
  qed
qed

lemma align_with_never_identity_after:
  "used_method (align_with_alignment cv img) \<noteq> Some Identity_after_failed_detection"
proof -
  let ?f = "try_feature_homography cv img initial_alignment"
  let ?a = "warp_found_corners cv img (find_document_or_lines cv img) ?f"
  show ?thesis
  proof (cases "warped ?f = None")
    case False
    then have "used_method ?f = Some Feature_homography"
      using try_feature_cases [of cv img initial_alignment] by (auto simp: initial_alignment_def)
    with False show ?thesis by (auto simp: align_with_alignment_def Let_def)
  next
    case wf: True
    show ?thesis
    proof (cases "size_diff_ok img")
      case True
      then show ?thesis using wf by (simp add: align_with_alignment_def Let_def)
    next
      case nok: False
      show ?thesis
      proof (cases "warped ?a = None")
        case True
        then have "all_detection_failed cv img" using wf by (simp add: all_detection_failed_def Let_def)
        then show ?thesis using align_with_failed [OF nok] by simp
      next
        case False
        then have "used_method ?a = Some Doc_detect"
          using warp_found_corners_cases [of cv img "find_document_or_lines cv img" ?f] wf by auto
        then show ?thesis using False nok wf
          by (simp add: align_with_alignment_def Let_def fallback_to_resize_def)
      qed
    qed
  qed
qed


section \<open>The manual-check decision\<close>

lemma crop_positive:
  "crop_bbox_from_template_coords w b pad = Some crop \<Longrightarrow> 0 < num_pixels crop"
  by (auto simp: crop_bbox_from_template_coords_def Let_def num_pixels_def split: if_splits)

lemma blank_crop_eq: "blank_crop w row = crop_mostly_blank w row"
proof (cases "crop_bbox_from_template_coords w (row_bbox row) 8")
  case None
  then show ?thesis by (simp add: blank_crop_def crop_mostly_blank_def)
next
  case (Some crop)
  then have "0 < num_pixels crop" by (rule crop_positive)
  then show ?thesis using Some
    by (simp add: blank_crop_def crop_mostly_blank_def is_mostly_blank_def Let_def pos_le_divide_eq)
qed

lemma warnings_blank:
  "(length (crop_warnings w (row_bbox row)) > 0 \<and> Mostly_blank \<in> set (crop_warnings w (row_bbox row)))
    = blank_crop w row"
  by (auto simp: crop_warnings_def blank_crop_def split: option.splits if_splits)

lemma crop_loop_step:
  "crop_loop w (row # rows) (meta, rs, flag) =
     crop_loop w rows
       (meta(label_name row \<mapsto> (row_bbox row, crop_warnings w (row_bbox row))),
        (if blank_crop w row \<and> Mostly_blank_crop \<notin> set rs then rs @ [Mostly_blank_crop] else rs),
        (flag \<or> (blank_crop w row \<and> Mostly_blank_crop \<notin> set rs)))"
  using warnings_blank [of w row] by (auto simp: Let_def)

lemma crop_loop_spec:
  "\<exists>meta'. crop_loop w rows (meta, rs, flag) =
     (meta',
      (if (\<exists>row\<in>set rows. blank_crop w row) \<and> Mostly_blank_crop \<notin> set rs
       then rs @ [Mostly_blank_crop] else rs),
      (flag \<or> ((\<exists>row\<in>set rows. blank_crop w row) \<and> Mostly_blank_crop \<notin> set rs)))"
proof (induction rows arbitrary: meta rs flag)
  case Nil
  then show ?case by simp
next
  case (Cons row rows)
  let ?meta = "meta(label_name row \<mapsto> (row_bbox row, crop_warnings w (row_bbox row)))"
  let ?rs = "if blank_crop w row \<and> Mostly_blank_crop \<notin> set rs then rs @ [Mostly_blank_crop] else rs"
  let ?flag = "flag \<or> (blank_crop w row \<and> Mostly_blank_crop \<notin> set rs)"
  obtain meta' where
    "crop_loop w rows (?meta, ?rs, ?flag) =
       (meta',
        (if (\<exists>row\<in>set rows. blank_crop w row) \<and> Mostly_blank_crop \<notin> set ?rs
         then ?rs @ [Mostly_blank_crop] else ?rs),
        (?flag \<or> ((\<exists>row\<in>set rows. blank_crop w row) \<and> Mostly_blank_crop \<notin> set ?rs)))"
    using Cons.IH [of ?meta ?rs ?flag] by blast
  then show ?case
    unfolding crop_loop_step by (intro exI [of _ meta']) auto
qed

lemma heuristics_no_blank_tag:
  "Mostly_blank_crop \<notin> set (manual_check_heuristics c r tp pm)"
  by (simp add: manual_check_heuristics_def Let_def split: option.splits)

lemma max_scale_pct_eq: "max_scale_pct tp = max \<bar>scale_x tp - 1\<bar> \<bar>scale_y tp - 1\<bar> * 100"
  by (simp add: max_scale_pct_def max_def)

lemma heuristics_conditions:
  assumes "alignment_confidence s = c" "residual_mad s = r" "s_transform_params s = tp"
    "s_perspective_metrics s = pm"
  shows "manual_check_heuristics c r tp pm @ (if blank then [Mostly_blank_crop] else [])
         = map snd (filter fst (review_conditions s blank))"
  using assms
  by (simp add: manual_check_heuristics_def review_conditions_def Let_def max_scale_pct_eq
      CONFIDENCE_THRESHOLD_def RESIDUAL_MAD_THRESHOLD_def ROTATION_THRESHOLD_DEG_def
      SCALE_PERCENT_THRESHOLD_def PERSPECTIVE_DISTORTION_PCT_def split: option.splits)

lemma filter_nonempty: "(map snd (filter fst cs) \<noteq> []) = (\<exists>c\<in>set cs. fst c)"
  by (induction cs) auto

lemma process_single_image_result:
  assumes "process_single_image cv (Some img) df = Inr s"
  shows "\<exists>w tp pm meta.
      warped (align_single_image cv img) = Some w \<and>
      alignment_metrics (svd cv) (align_single_image cv img) = Some (tp, pm) \<and>
      s = \<lparr>s_used_method = used_method (align_single_image cv img),
           alignment_confidence = confidence (align_single_image cv img),
           residual_mad = residual_mad_vs_template w,
           manual_check_needed =
             (manual_check_heuristics (confidence (align_single_image cv img))
                (residual_mad_vs_template w) tp pm \<noteq> [] \<or> (\<exists>row\<in>set df. blank_crop w row)),
           manual_check_reasons =
             manual_check_heuristics (confidence (align_single_image cv img))
                (residual_mad_vs_template w) tp pm
             @ (if \<exists>row\<in>set df. blank_crop w row then [Mostly_blank_crop] else []),
           s_transform_params = tp,
           s_perspective_metrics = pm,
           s_doc_area_ratio = doc_area_ratio (align_single_image cv img),
           crops = meta\<rparr>"
proof -
  let ?al = "align_single_image cv img"
  obtain w where w: "warped ?al = Some w"
    using assms by (cases "warped ?al") (simp_all add: process_single_image_def Let_def)
  obtain tp pm where m: "alignment_metrics (svd cv) ?al = Some (tp, pm)"
    using assms w by (cases "alignment_metrics (svd cv) ?al") (auto simp: process_single_image_def Let_def)
  let ?h = "manual_check_heuristics (confidence ?al) (residual_mad_vs_template w) tp pm"
  obtain meta where c: "crop_loop w df (Map.empty, ?h, length ?h > 0) =
     (meta,
      (if (\<exists>row\<in>set df. blank_crop w row) \<and> Mostly_blank_crop \<notin> set ?h
       then ?h @ [Mostly_blank_crop] else ?h),
      (length ?h > 0 \<or> ((\<exists>row\<in>set df. blank_crop w row) \<and> Mostly_blank_crop \<notin> set ?h)))"
    using crop_loop_spec [of w df Map.empty ?h "length ?h > 0"] by blast
  have "Mostly_blank_crop \<notin> set ?h" by (rule heuristics_no_blank_tag)
  then have c': "crop_loop w df (Map.empty, ?h, length ?h > 0) =
     (meta, ?h @ (if \<exists>row\<in>set df. blank_crop w row then [Mostly_blank_crop] else []),
      (?h \<noteq> [] \<or> (\<exists>row\<in>set df. blank_crop w row)))"
    using c by auto
  have "process_single_image cv (Some img) df =
     Inr \<lparr>s_used_method = used_method ?al,
           alignment_confidence = confidence ?al,
           residual_mad = residual_mad_vs_template w,
           manual_check_needed = (?h \<noteq> [] \<or> (\<exists>row\<in>set df. blank_crop w row)),
           manual_check_reasons = ?h @ (if \<exists>row\<in>set df. blank_crop w row then [Mostly_blank_crop] else []),
           s_transform_params = tp,
           s_perspective_metrics = pm,
           s_doc_area_ratio = doc_area_ratio ?al,
           crops = meta\<rparr>"
    unfolding process_single_image_def Let_def by (simp only: option.case w m prod.case c')
  then show ?thesis using assms w m by auto
qed

lemma process_with_alignment_result:
  assumes "process_single_image_with_alignment cv img = Inr (w, s)"
  shows "\<exists>tp pm.
      warped (align_with_alignment cv img) = Some w \<and>
      alignment_metrics (svd cv) (align_with_alignment cv img) = Some (tp, pm) \<and>
      s = \<lparr>s_used_method = used_method (align_with_alignment cv img),
           alignment_confidence = confidence (align_with_alignment cv img),
           residual_mad = residual_mad_vs_template w,
           manual_check_needed =
             (manual_check_heuristics (confidence (align_with_alignment cv img))
                (residual_mad_vs_template w) tp pm \<noteq> []),
           manual_check_reasons =
             manual_check_heuristics (confidence (align_with_alignment cv img))
                (residual_mad_vs_template w) tp pm,
           s_transform_params = tp,
           s_perspective_metrics = pm,
           s_doc_area_ratio = doc_area_ratio (align_with_alignment cv img),
           crops = Map.empty\<rparr>"
  using assms
  by (auto simp: process_single_image_with_alignment_def Let_def split: option.splits)


section \<open>The sample scene evaluated\<close>

lemma sum_pixels_white [simp]: "sum_pixels (white_image h w) f = real h * real w * f 255"
  by (simp add: sum_pixels_def white_image_def)

lemma count_pixels_white [simp]: "count_pixels (white_image h w) P = (if P 255 then h * w else 0)"
  by (simp add: count_pixels_def white_image_def)

lemma num_pixels_white [simp]: "num_pixels (white_image h w) = h * w"
  by (simp add: num_pixels_def white_image_def)

lemma blank_scan_size_mismatch: "\<not> size_diff_ok (white_image 100 100)"
  by (simp add: size_diff_ok_def white_image_def TEMPLATE_W_def TEMPLATE_H_def SIZE_TOL_PCT_def)

lemma blank_scan_find_document: "find_document blank_scan_cv (white_image 100 100) = Some ([(0,0),(99,0),(99,99),(0,99)], 9801/10000)"
  by (simp add: find_document_def blank_scan_cv_def white_image_def MIN_DOC_AREA_RATIO_def
     order_points_def argmin_def argmax_def psum_def pdiff_def real_point_def)

lemma blank_scan_warp_rejected: "warp_found_corners blank_scan_cv (white_image 100 100) (Some ([(0,0),(99,0),(99,99),(0,99)], 9801/10000)) al = al"
  by (simp add: warp_found_corners_def blank_scan_cv_def MIN_DOC_AREA_RATIO_def safe_inverse_def mat3_det_def Let_def)

lemma blank_scan_all_failed: "all_detection_failed blank_scan_cv (white_image 100 100)"
  unfolding all_detection_failed_def Let_def find_document_or_lines_def blank_scan_find_document
  by (simp add: blank_scan_warp_rejected) (simp add: try_feature_homography_def blank_scan_cv_def initial_alignment_def)

lemma pixel_white [simp]: "pixel (white_image h w) y x = 255" "height (white_image h w) = h" "width (white_image h w) = w"
  by (simp_all add: white_image_def)

lemma blank_scan_align_single: "align_single_image blank_scan_cv (white_image 100 100) =
   initial_alignment\<lparr>warped := Some (white_image 2200 1700), used_method := Some Simple_resize_fallback, confidence := 0\<rparr>"
  unfolding align_single_image_def Let_def blank_scan_find_document blank_scan_warp_rejected
  by (simp add: blank_scan_size_mismatch fallback_to_resize_def initial_alignment_def blank_scan_cv_def)

lemma blank_scan_align_with: "align_with_alignment blank_scan_cv (white_image 100 100) =
   initial_alignment\<lparr>warped := Some (white_image 2200 1700), used_method := Some Simple_resize_fallback, confidence := 0\<rparr>"
  using align_with_failed [OF blank_scan_size_mismatch blank_scan_all_failed] by (simp add: blank_scan_cv_def)

lemma white_template_residual: "residual_mad_vs_template (white_image 2200 1700) = Some 0"
  by (simp add: residual_mad_vs_template_def TEMPLATE_W_def TEMPLATE_H_def)

lemma white_template_crop_warnings: "crop_warnings (white_image 2200 1700) (row_bbox q1_row) = [Mostly_blank, Low_variance 0]"
  by (simp add: crop_warnings_def q1_row_def crop_bbox_from_template_coords_def py_round_def Let_def
      is_mostly_blank_def variance_def num_pixels_def count_pixels_def sum_pixels_def)

lemma resize_fallback_heuristics: "manual_check_heuristics 0 (Some 0) identity_params no_perspective = [Low_confidence 0]"
  by (simp add: manual_check_heuristics_def identity_params_def no_perspective_def max_scale_pct_def
      CONFIDENCE_THRESHOLD_def RESIDUAL_MAD_THRESHOLD_def ROTATION_THRESHOLD_DEG_def
      SCALE_PERCENT_THRESHOLD_def PERSPECTIVE_DISTORTION_PCT_def)

lemma blank_scan_process_single: "process_single_image blank_scan_cv (Some (white_image 100 100)) [q1_row] = Inr blank_scan_summary"
  apply (simp only: process_single_image_def Let_def option.case)
  apply (simp only: blank_scan_align_single)
  apply (simp add: initial_alignment_def alignment_metrics_def white_template_residual resize_fallback_heuristics white_template_crop_warnings blank_scan_summary_def)
  apply (simp add: q1_row_def)
  done

lemma blank_scan_process_with: "process_single_image_with_alignment blank_scan_cv (white_image 100 100) =
    Inr (white_image 2200 1700, blank_scan_summary\<lparr>manual_check_reasons := [Low_confidence 0], crops := Map.empty\<rparr>)"
  unfolding process_single_image_with_alignment_def Let_def blank_scan_align_with
  by (simp add: initial_alignment_def alignment_metrics_def white_template_residual resize_fallback_heuristics blank_scan_summary_def)

section \<open>Claim C1: the manual-check flag\<close>

text \<open>
  Claim C1.  For every image that \<open>process_single_image\<close> or
  \<open>process_single_image_with_alignment\<close> processes, \<open>manual_check_needed\<close> is true if and
  only if one of the conditions holds: confidence below 0.60, residual (when computed)
  above 30.0, rotation beyond 10 degrees, \<open>max(|scale_x - 1|, |scale_y - 1|) * 100\<close> above 10,
  perspective distortion above 8 or, in \<open>process_single_image\<close>, a crop of which at least
  98 percent of the grey levels are at least 245.  \<open>manual_check_reasons\<close> holds one tag
  for each condition that holds, in this order, and a mostly blank crop sets the flag
  whatever the other conditions are.
\<close>

theorem manual_check_needed_iff:
  "(process_single_image cv (Some img) df = Inr s \<longrightarrow>
      (\<exists>w. warped (align_single_image cv img) = Some w \<and>
           manual_check_needed s =
             (\<exists>c\<in>set (review_conditions s (\<exists>row\<in>set df. crop_mostly_blank w row)). fst c) \<and>
           manual_check_reasons s =
             map snd (filter fst (review_conditions s (\<exists>row\<in>set df. crop_mostly_blank w row))) \<and>
           ((\<exists>row\<in>set df. crop_mostly_blank w row) \<longrightarrow> manual_check_needed s))) \<and>
   (process_single_image_with_alignment cv img = Inr (w', s') \<longrightarrow>
      manual_check_needed s' = (\<exists>c\<in>set (review_conditions s' False). fst c) \<and>
      manual_check_reasons s' = map snd (filter fst (review_conditions s' False)))"
proof (rule conjI; rule impI)
  assume a: "process_single_image cv (Some img) df = Inr s"
  let ?al = "align_single_image cv img"
  obtain w tp pm meta where w: "warped ?al = Some w"
    and s: "s = \<lparr>s_used_method = used_method ?al,
           alignment_confidence = confidence ?al,
           residual_mad = residual_mad_vs_template w,
           manual_check_needed =
             (manual_check_heuristics (confidence ?al) (residual_mad_vs_template w) tp pm \<noteq> []
              \<or> (\<exists>row\<in>set df. blank_crop w row)),
           manual_check_reasons =
             manual_check_heuristics (confidence ?al) (residual_mad_vs_template w) tp pm
             @ (if \<exists>row\<in>set df. blank_crop w row then [Mostly_blank_crop] else []),
           s_transform_params = tp,
           s_perspective_metrics = pm,
           s_doc_area_ratio = doc_area_ratio ?al,
           crops = meta\<rparr>"
    using process_single_image_result [OF a] by blast
  let ?b = "\<exists>row\<in>set df. crop_mostly_blank w row"
  let ?h = "manual_check_heuristics (confidence ?al) (residual_mad_vs_template w) tp pm"
  have r: "manual_check_reasons s = map snd (filter fst (review_conditions s ?b))"
    using heuristics_conditions [of s "confidence ?al" "residual_mad_vs_template w" tp pm ?b]
    by (simp add: s blank_crop_eq)
  have "manual_check_needed s = (manual_check_reasons s \<noteq> [])"
    by (simp add: s)
  then have f: "manual_check_needed s = (\<exists>c\<in>set (review_conditions s ?b). fst c)"
    unfolding r filter_nonempty .
  have "?b \<longrightarrow> manual_check_needed s" by (simp add: s blank_crop_eq)
  then show "\<exists>w. warped ?al = Some w \<and>
           manual_check_needed s =
             (\<exists>c\<in>set (review_conditions s (\<exists>row\<in>set df. crop_mostly_blank w row)). fst c) \<and>
           manual_check_reasons s =
             map snd (filter fst (review_conditions s (\<exists>row\<in>set df. crop_mostly_blank w row))) \<and>
           ((\<exists>row\<in>set df. crop_mostly_blank w row) \<longrightarrow> manual_check_needed s)"
    using w r f by blast
next
  assume a: "process_single_image_with_alignment cv img = Inr (w', s')"
  let ?al = "align_with_alignment cv img"
  obtain tp pm where
    s: "s' = \<lparr>s_used_method = used_method ?al,
           alignment_confidence = confidence ?al,
           residual_mad = residual_mad_vs_template w',
           manual_check_needed =
             (manual_check_heuristics (confidence ?al) (residual_mad_vs_template w') tp pm \<noteq> []),
           manual_check_reasons =
             manual_check_heuristics (confidence ?al) (residual_mad_vs_template w') tp pm,
           s_transform_params = tp,
           s_perspective_metrics = pm,
           s_doc_area_ratio = doc_area_ratio ?al,
           crops = Map.empty\<rparr>"
    using process_with_alignment_result [OF a] by blast
  have r: "manual_check_reasons s' = map snd (filter fst (review_conditions s' False))"
    using heuristics_conditions [of s' "confidence ?al" "residual_mad_vs_template w'" tp pm False]
    by (simp add: s)
  have "manual_check_needed s' = (manual_check_reasons s' \<noteq> [])"
    by (simp add: s)
  then have f: "manual_check_needed s' = (\<exists>c\<in>set (review_conditions s' False). fst c)"
    unfolding r filter_nonempty .
  show "manual_check_needed s' = (\<exists>c\<in>set (review_conditions s' False). fst c) \<and>
      manual_check_reasons s' = map snd (filter fst (review_conditions s' False))"
    using r f by blast
qed

theorem manual_check_needed_iff_witness:
  "process_single_image blank_scan_cv (Some (white_image 100 100)) [q1_row] = Inr blank_scan_summary \<and>
   process_single_image_with_alignment blank_scan_cv (white_image 100 100) =
     Inr (white_image 2200 1700, blank_scan_summary\<lparr>manual_check_reasons := [Low_confidence 0], crops := Map.empty\<rparr>) \<and>
   manual_check_needed blank_scan_summary =
     (\<exists>c\<in>set (review_conditions blank_scan_summary (\<exists>row\<in>set [q1_row]. crop_mostly_blank (white_image 2200 1700) row)). fst c)"
  using manual_check_needed_iff [of blank_scan_cv "white_image 100 100" "[q1_row]" blank_scan_summary
      "white_image 2200 1700" "blank_scan_summary\<lparr>manual_check_reasons := [Low_confidence 0], crops := Map.empty\<rparr>"]
    blank_scan_process_single blank_scan_process_with blank_scan_align_single
  by (simp add: initial_alignment_def)

section \<open>Claim C10: the fallback after failed detection\<close>

lemma metrics_without_homography:
  "H_img_to_template al = None \<Longrightarrow> alignment_metrics sv al = Some (identity_params, no_perspective)"
  by (simp add: alignment_metrics_def)

lemma process_single_image_returns:
  assumes "warped (align_single_image cv img) = Some w"
    and "alignment_metrics (svd cv) (align_single_image cv img) = Some (tp, pm)"
  shows "\<exists>s. process_single_image cv (Some img) df = Inr s \<and>
             s_used_method s = used_method (align_single_image cv img) \<and>
             alignment_confidence s = confidence (align_single_image cv img) \<and>
             s_transform_params s = tp \<and> s_perspective_metrics s = pm"
proof -
  let ?al = "align_single_image cv img"
  let ?h = "manual_check_heuristics (confidence ?al) (residual_mad_vs_template w) tp pm"
  obtain meta rs flag where "crop_loop w df (Map.empty, ?h, length ?h > 0) = (meta, rs, flag)"
    by (cases "crop_loop w df (Map.empty, ?h, length ?h > 0)") auto
  then show ?thesis
    using assms by (simp add: process_single_image_def Let_def)
qed

lemma process_with_alignment_returns:
  assumes "warped (align_with_alignment cv img) = Some w"
    and "alignment_metrics (svd cv) (align_with_alignment cv img) = Some (tp, pm)"
  shows "\<exists>s. process_single_image_with_alignment cv img = Inr (w, s) \<and>
             s_used_method s = used_method (align_with_alignment cv img) \<and>
             alignment_confidence s = confidence (align_with_alignment cv img) \<and>
             s_transform_params s = tp \<and> s_perspective_metrics s = pm \<and>
             manual_check_reasons s =
               manual_check_heuristics (confidence (align_with_alignment cv img))
                 (residual_mad_vs_template w) tp pm \<and>
             manual_check_needed s = (manual_check_reasons s \<noteq> [])"
  using assms by (simp add: process_single_image_with_alignment_def Let_def)

lemma blank_scan_detection_failed: "detection_failed blank_scan_cv (white_image 100 100)"
  unfolding detection_failed_def blank_scan_find_document
  by (simp add: blank_scan_warp_rejected initial_alignment_def)

text \<open>
  Claim C10.  When the size of the input differs from the template by more than the two
  percent tolerance (\<open>size_diff_ok\<close> is false) and all detection steps fail to produce a
  warp, both process functions report \<open>simple_resize_fallback\<close> with confidence 0; and no
  run of either function reports \<open>identity_after_failed_detection\<close>, whose branch tests
  \<open>size_diff_ok\<close> again where it is known to be false.
\<close>

theorem resize_fallback_after_failed_detection:
  "(\<not> size_diff_ok img \<and> detection_failed cv img \<longrightarrow>
      (\<exists>s. process_single_image cv (Some img) df = Inr s \<and>
           s_used_method s = Some Simple_resize_fallback \<and> alignment_confidence s = 0)) \<and>
   (\<not> size_diff_ok img \<and> all_detection_failed cv img \<longrightarrow>
      (\<exists>w s. process_single_image_with_alignment cv img = Inr (w, s) \<and>
           s_used_method s = Some Simple_resize_fallback \<and> alignment_confidence s = 0)) \<and>
   (process_single_image cv (Some img) df = Inr s' \<longrightarrow>
      s_used_method s' \<noteq> Some Identity_after_failed_detection) \<and>
   (process_single_image_with_alignment cv img = Inr (w', s'') \<longrightarrow>
      s_used_method s'' \<noteq> Some Identity_after_failed_detection)"
proof -
  have 1: "\<exists>s. process_single_image cv (Some img) df = Inr s \<and>
           s_used_method s = Some Simple_resize_fallback \<and> alignment_confidence s = 0"
    if "\<not> size_diff_ok img" "detection_failed cv img"
  proof -
    let ?al = "align_single_image cv img"
    have al: "?al = initial_alignment\<lparr>warped := Some (resize cv img),
                 used_method := Some Simple_resize_fallback, confidence := 0\<rparr>"
      using that by (rule align_single_failed)
    have w: "warped ?al = Some (resize cv img)" by (simp add: al)
    have "H_img_to_template ?al = None" by (simp add: al initial_alignment_def)
    then have m: "alignment_metrics (svd cv) ?al = Some (identity_params, no_perspective)"
      by (rule metrics_without_homography)
    show ?thesis using process_single_image_returns [OF w m, of df] by (auto simp: al)
  qed
  have 2: "\<exists>w s. process_single_image_with_alignment cv img = Inr (w, s) \<and>
           s_used_method s = Some Simple_resize_fallback \<and> alignment_confidence s = 0"
    if "\<not> size_diff_ok img" "all_detection_failed cv img"
  proof -
    let ?al = "align_with_alignment cv img"
    have al: "?al = initial_alignment\<lparr>warped := Some (resize cv img),
                 used_method := Some Simple_resize_fallback, confidence := 0\<rparr>"
      using that by (rule align_with_failed)
    have w: "warped ?al = Some (resize cv img)" by (simp add: al)
    have "H_img_to_template ?al = None" by (simp add: al initial_alignment_def)
    then have m: "alignment_metrics (svd cv) ?al = Some (identity_params, no_perspective)"
      by (rule metrics_without_homography)
    show ?thesis using process_with_alignment_returns [OF w m] by (auto simp: al)
  qed
  have 3: "s_used_method s' \<noteq> Some Identity_after_failed_detection"
    if "process_single_image cv (Some img) df = Inr s'"
    using process_single_image_result [OF that] align_single_never_identity_after [of cv img]
    by auto
  have 4: "s_used_method s'' \<noteq> Some Identity_after_failed_detection"
    if "process_single_image_with_alignment cv img = Inr (w', s'')"
    using process_with_alignment_result [OF that] align_with_never_identity_after [of cv img]
    by auto
  show ?thesis using 1 2 3 4 by blast
qed

theorem resize_fallback_after_failed_detection_witness:
  "\<not> size_diff_ok (white_image 100 100) \<and>
   detection_failed blank_scan_cv (white_image 100 100) \<and>
   all_detection_failed blank_scan_cv (white_image 100 100) \<and>
   process_single_image blank_scan_cv (Some (white_image 100 100)) [q1_row] = Inr blank_scan_summary \<and>
   s_used_method blank_scan_summary = Some Simple_resize_fallback \<and>
   alignment_confidence blank_scan_summary = 0 \<and>
   s_used_method blank_scan_summary \<noteq> Some Identity_after_failed_detection"
  using resize_fallback_after_failed_detection [of "white_image 100 100" blank_scan_cv "[q1_row]"
      blank_scan_summary "white_image 2200 1700"
      "blank_scan_summary\<lparr>manual_check_reasons := [Low_confidence 0], crops := Map.empty\<rparr>"]
    blank_scan_size_mismatch blank_scan_detection_failed blank_scan_all_failed
    blank_scan_process_single blank_scan_process_with
  by (simp add: blank_scan_summary_def)

section \<open>Claim C6: perspective distortion\<close>

lemma norm2_scale: "norm2 (k * x) (k * y) = \<bar>k\<bar> * norm2 x y"
proof -
  have "(k * x) * (k * x) + (k * y) * (k * y) = k\<^sup>2 * (x * x + y * y)"
    by (simp add: power2_eq_square algebra_simps)
  then show ?thesis by (simp add: norm2_def real_sqrt_mult)
qed


lemma norm2_neg: "norm2 (- x) (- y) = norm2 x y"
  by (simp add: norm2_def)

lemma side_lens_four:
  "side_lens [c0, c1, c2, c3] = [dist2 c0 c1, dist2 c1 c2, dist2 c2 c3, dist2 c3 c0]"
proof -
  have u: "[0..<4] = [0, 1, 2, Suc 2]" by code_simp
  show ?thesis by (simp add: side_lens_def u)
qed

lemma affine_transform:
  "h20 H = 0 \<Longrightarrow> h21 H = 0 \<Longrightarrow> h22 H = 1 \<Longrightarrow>
   perspectiveTransform H (x, y) = (h00 H * x + h01 H * y + h02 H, h10 H * x + h11 H * y + h12 H)"
  by (simp add: perspectiveTransform_def FLT_EPSILON_def)

lemma affine_side_lengths:
  assumes "h20 H = 0" "h21 H = 0" "h22 H = 1"
  shows "side_lengths (measure_perspective_from_template_to_image H TEMPLATE_W TEMPLATE_H)
         = [1699 * norm2 (h00 H) (h10 H), 2199 * norm2 (h01 H) (h11 H),
            1699 * norm2 (h00 H) (h10 H), 2199 * norm2 (h01 H) (h11 H)]"
proof -
  have a: "norm2 (h00 H * 1699) (h10 H * 1699) = 1699 * norm2 (h00 H) (h10 H)"
    using norm2_scale [of 1699 "h00 H" "h10 H"] by (simp add: mult.commute)
  have b: "norm2 (h01 H * 2199) (h11 H * 2199) = 2199 * norm2 (h01 H) (h11 H)"
    using norm2_scale [of 2199 "h01 H" "h11 H"] by (simp add: mult.commute)
  have a': "norm2 (- (h00 H * 1699)) (- (h10 H * 1699)) = 1699 * norm2 (h00 H) (h10 H)"
    using a by (simp add: norm2_neg)
  have b': "norm2 (- (h01 H * 2199)) (- (h11 H * 2199)) = 2199 * norm2 (h01 H) (h11 H)"
    using b by (simp add: norm2_neg)
  show ?thesis
    by (simp add: measure_perspective_from_template_to_image_def Let_def template_corners_def
        TEMPLATE_W_def TEMPLATE_H_def affine_transform [OF assms] side_lens_four dist2_def
        a b a' b')
qed

lemma distortion_from_sides:
  "perspective_distortion_pct (measure_perspective_from_template_to_image H tw th) =
     (let lens = side_lengths (measure_perspective_from_template_to_image H tw th)
      in if Min (set lens) \<le> 1 / 10 ^ 6 then 0
         else (Max (set lens) / Min (set lens) - 1) * 100)"
  by (simp add: measure_perspective_from_template_to_image_def Let_def)

lemma affine_distortion:
  assumes "h20 H = 0" "h21 H = 0" "h22 H = 1"
  shows "perspective_distortion_pct (measure_perspective_from_template_to_image H TEMPLATE_W TEMPLATE_H)
         = (let a = 1699 * norm2 (h00 H) (h10 H); b = 2199 * norm2 (h01 H) (h11 H)
            in if min a b \<le> 1 / 10 ^ 6 then 0 else (max a b / min a b - 1) * 100)"
  unfolding distortion_from_sides affine_side_lengths [OF assms] Let_def
  by simp

lemma percent_zero_iff: "((x - 1) * 100 = 0) = (x = (1::real))"
  by auto

lemma ratio_zero_iff:
  fixes a b :: real
  assumes "0 < min a b"
  shows "((max a b / min a b - 1) * 100 = 0) = (a = b)"
proof -
  have ne: "min a b \<noteq> 0" using assms by linarith
  have "(max a b / min a b = 1) = (max a b = min a b)"
    using ne by (auto simp: divide_eq_1_iff)
  also have "\<dots> = (a = b)" by (auto simp: max_def min_def)
  finally show ?thesis unfolding percent_zero_iff .
qed

lemma align_single_no_homography:
  assumes "used_method (align_single_image cv img) = Some Identity_size_match \<or>
           used_method (align_single_image cv img) = Some Simple_resize_fallback"
  shows "H_img_to_template (align_single_image cv img) = None"
proof (cases "size_diff_ok img")
  case True
  then show ?thesis by (simp add: align_single_image_def initial_alignment_def)
next
  case False
  let ?a = "warp_found_corners cv img (find_document cv img) initial_alignment"
  show ?thesis
  proof (cases "warped ?a = None")
    case True
    then have "detection_failed cv img" by (simp add: detection_failed_def)
    then show ?thesis using align_single_failed [OF False] by (simp add: initial_alignment_def)
  next
    case w: False
    then have "used_method ?a = Some Doc_detect"
      using warp_found_corners_cases [of cv img "find_document cv img" initial_alignment]
      by (auto simp: initial_alignment_def)
    then have "used_method (align_single_image cv img) = Some Doc_detect"
      using False w by (simp add: align_single_image_def fallback_to_resize_def)
    then show ?thesis using assms by simp
  qed
qed

lemma align_with_no_homography:
  assumes "used_method (align_with_alignment cv img) = Some Identity_size_match \<or>
           used_method (align_with_alignment cv img) = Some Simple_resize_fallback"
  shows "H_img_to_template (align_with_alignment cv img) = None"
proof -
  let ?f = "try_feature_homography cv img initial_alignment"
  let ?a = "warp_found_corners cv img (find_document_or_lines cv img) ?f"
  show ?thesis
  proof (cases "warped ?f = None")
    case False
    then have "used_method ?f = Some Feature_homography"
      using try_feature_cases [of cv img initial_alignment] by (auto simp: initial_alignment_def)
    with False have "used_method (align_with_alignment cv img) = Some Feature_homography"
      by (auto simp: align_with_alignment_def Let_def)
    then show ?thesis using assms by simp
  next
    case no_feature: True
    then have f: "?f = initial_alignment"
      using try_feature_cases [of cv img initial_alignment] by auto
    show ?thesis
    proof (cases "size_diff_ok img")
      case True
      then show ?thesis using no_feature f
        by (simp add: align_with_alignment_def Let_def initial_alignment_def)
    next
      case nok: False
      show ?thesis
      proof (cases "warped ?a = None")
        case True
        then have "all_detection_failed cv img"
          using no_feature by (simp add: all_detection_failed_def Let_def)
        then show ?thesis using align_with_failed [OF nok] by (simp add: initial_alignment_def)
      next
        case w: False
        then have "used_method ?a = Some Doc_detect"
          using warp_found_corners_cases [of cv img "find_document_or_lines cv img" ?f] no_feature
          by auto
        then have "used_method (align_with_alignment cv img) = Some Doc_detect"
          using w nok no_feature by (simp add: align_with_alignment_def Let_def fallback_to_resize_def)
        then show ?thesis using assms by simp
      qed
    qed
  qed
qed


text \<open>
  Claim C6, as stated: whenever the homography from template to image is purely affine
  (bottom row \<open>[0, 0, 1]\<close>) the reported \<open>perspective_distortion_pct\<close> is 0.  It fails for
  the identity matrix: the corners of the 1700 by 2200 template stay where they are, the
  sides measure 1699 and 2199, and the result is \<open>(2199 / 1699 - 1) * 100\<close>, about 29.4.
\<close>

theorem perspective_distortion_affine_counterexample:
  "h20 mat3_eye = 0 \<and> h21 mat3_eye = 0 \<and> h22 mat3_eye = 1 \<and>
   perspective_distortion_pct
     (measure_perspective_from_template_to_image mat3_eye TEMPLATE_W TEMPLATE_H) = 50000 / 1699"
proof -
  have e: "h20 mat3_eye = 0" "h21 mat3_eye = 0" "h22 mat3_eye = 1"
    by (simp_all add: mat3_eye_def)
  have n: "norm2 1 0 = 1" "norm2 0 1 = 1" by (simp_all add: norm2_def)
  show ?thesis
    unfolding affine_distortion [OF e] using e by (simp add: mat3_eye_def n Let_def)
qed


text \<open>
  Claim C6, amended.  For a purely affine homography the mapped template is a
  parallelogram with sides \<open>1699 * |(h00, h10)|\<close> and \<open>2199 * |(h01, h11)|\<close>, and the reported
  percentage is \<open>(longer / shorter - 1) * 100\<close>, or 0 when the shorter side is at most
  \<open>1e-6\<close>: it is 0 exactly when the two sides are equal or the shorter is at most \<open>1e-6\<close>.
  Whenever no homography is available (\<open>H_img_to_template\<close> is \<open>None\<close>, as on the identity
  and resize paths), the reported perspective metrics contain
  \<open>perspective_distortion_pct = 0\<close>.
\<close>

theorem perspective_distortion_zero_cases:
  "(h20 H = 0 \<and> h21 H = 0 \<and> h22 H = 1 \<longrightarrow>
      (let a = 1699 * norm2 (h00 H) (h10 H); b = 2199 * norm2 (h01 H) (h11 H);
           pct = perspective_distortion_pct
                   (measure_perspective_from_template_to_image H TEMPLATE_W TEMPLATE_H)
       in pct = (if min a b \<le> 1 / 10 ^ 6 then 0 else (max a b / min a b - 1) * 100) \<and>
          (pct = 0) = (min a b \<le> 1 / 10 ^ 6 \<or> a = b))) \<and>
   (process_single_image cv (Some img) df = Inr s \<and>
      (H_img_to_template (align_single_image cv img) = None \<or>
       s_used_method s = Some Identity_size_match \<or>
       s_used_method s = Some Simple_resize_fallback) \<longrightarrow>
      perspective_distortion_pct (s_perspective_metrics s) = 0) \<and>
   (process_single_image_with_alignment cv img = Inr (w', s') \<and>
      (H_img_to_template (align_with_alignment cv img) = None \<or>
       s_used_method s' = Some Identity_size_match \<or>
       s_used_method s' = Some Simple_resize_fallback) \<longrightarrow>
      perspective_distortion_pct (s_perspective_metrics s') = 0)"
proof -
  have 1: "(let a = 1699 * norm2 (h00 H) (h10 H); b = 2199 * norm2 (h01 H) (h11 H);
           pct = perspective_distortion_pct
                   (measure_perspective_from_template_to_image H TEMPLATE_W TEMPLATE_H)
       in pct = (if min a b \<le> 1 / 10 ^ 6 then 0 else (max a b / min a b - 1) * 100) \<and>
          (pct = 0) = (min a b \<le> 1 / 10 ^ 6 \<or> a = b))"
    if "h20 H = 0 \<and> h21 H = 0 \<and> h22 H = 1"
  proof -
    let ?a = "1699 * norm2 (h00 H) (h10 H)"
    let ?b = "2199 * norm2 (h01 H) (h11 H)"
    have p: "perspective_distortion_pct
              (measure_perspective_from_template_to_image H TEMPLATE_W TEMPLATE_H)
             = (if min ?a ?b \<le> 1 / 10 ^ 6 then 0 else (max ?a ?b / min ?a ?b - 1) * 100)"
      using affine_distortion [of H] that by (simp add: Let_def)
    have "((if min ?a ?b \<le> 1 / 10 ^ 6 then 0 else (max ?a ?b / min ?a ?b - 1) * 100) = 0)
          = (min ?a ?b \<le> 1 / 10 ^ 6 \<or> ?a = ?b)"
    proof (cases "min ?a ?b \<le> 1 / 10 ^ 6")
      case True
      then show ?thesis by simp
    next
      case False
      then have "0 < min ?a ?b" by simp
      then show ?thesis using False ratio_zero_iff [of ?a ?b] by simp
    qed
    then show ?thesis using p by (simp add: Let_def)
  qed
  have 2: "perspective_distortion_pct (s_perspective_metrics s) = 0"
    if a: "process_single_image cv (Some img) df = Inr s"
      and b: "H_img_to_template (align_single_image cv img) = None \<or>
       s_used_method s = Some Identity_size_match \<or>
       s_used_method s = Some Simple_resize_fallback"
  proof -
    have "H_img_to_template (align_single_image cv img) = None"
      using b process_single_image_result [OF a] align_single_no_homography [of cv img] by auto
    then have "alignment_metrics (svd cv) (align_single_image cv img)
                 = Some (identity_params, no_perspective)"
      by (rule metrics_without_homography)
    then show ?thesis
      using process_single_image_result [OF a] by (auto simp: no_perspective_def)
  qed
  have 3: "perspective_distortion_pct (s_perspective_metrics s') = 0"
    if a: "process_single_image_with_alignment cv img = Inr (w', s')"
      and b: "H_img_to_template (align_with_alignment cv img) = None \<or>
       s_used_method s' = Some Identity_size_match \<or>
       s_used_method s' = Some Simple_resize_fallback"
  proof -
    have "H_img_to_template (align_with_alignment cv img) = None"
      using b process_with_alignment_result [OF a] align_with_no_homography [of cv img] by auto
    then have "alignment_metrics (svd cv) (align_with_alignment cv img)
                 = Some (identity_params, no_perspective)"
      by (rule metrics_without_homography)
    then show ?thesis
      using process_with_alignment_result [OF a] by (auto simp: no_perspective_def)
  qed
  show ?thesis using 1 2 3 by blast
qed

theorem perspective_distortion_zero_cases_witness:
  "h20 mat3_eye = 0 \<and> h21 mat3_eye = 0 \<and> h22 mat3_eye = 1 \<and>
   process_single_image blank_scan_cv (Some (white_image 100 100)) [q1_row] = Inr blank_scan_summary \<and>
   s_used_method blank_scan_summary = Some Simple_resize_fallback \<and>
   perspective_distortion_pct (s_perspective_metrics blank_scan_summary) = 0 \<and>
   perspective_distortion_pct
     (measure_perspective_from_template_to_image mat3_eye TEMPLATE_W TEMPLATE_H) \<noteq> 0"
proof -
  have n: "norm2 1 0 = 1" "norm2 0 1 = 1" by (simp_all add: norm2_def)
  show ?thesis
    using perspective_distortion_zero_cases [of mat3_eye blank_scan_cv "white_image 100 100" "[q1_row]"
      blank_scan_summary "white_image 2200 1700"
      "blank_scan_summary\<lparr>manual_check_reasons := [Low_confidence 0], crops := Map.empty\<rparr>"]
      blank_scan_process_single blank_scan_process_with
    by (simp add: mat3_eye_def blank_scan_summary_def n Let_def)
qed

section \<open>Claim C9: total alignment failure\<close>


lemma align_page_raises_on_found_quad:
  assumes "detect_quad_bright d (snd (preprocess_page d bgr)) = Some quad" and "quad \<noteq> []"
  shows "align_page d bgr = Inl Ambiguous_truth_value"
  using assms by (cases "preprocess_page d bgr") (simp add: align_page_def py_or_def array_truth_def)










section \<open>Claim C4: the final crop\<close>

lemma py_int_nat [simp]: "py_int (numeral k) = numeral k" "py_int 0 = 0"
  by (simp_all add: py_int_def)

lemma py_int_hundredth: "0 \<le> n \<Longrightarrow> py_int (0.01 * real_of_int n) = n div 100"
proof -
  assume n: "0 \<le> n"
  have "0.01 * real_of_int n = real_of_int n / real_of_int 100" by simp
  moreover have "\<lfloor>real_of_int n / real_of_int 100\<rfloor> = n div 100"
    by (rule floor_divide_of_int_eq)
  ultimately show ?thesis using n by (simp add: py_int_def)
qed

lemma py_int_ninety_nine: "0 \<le> n \<Longrightarrow> py_int (0.99 * real_of_int n) = 99 * n div 100"
proof -
  assume n: "0 \<le> n"
  have "0.99 * real_of_int n = real_of_int (99 * n) / real_of_int 100" by simp
  moreover have "\<lfloor>real_of_int (99 * n) / real_of_int 100\<rfloor> = 99 * n div 100"
    by (rule floor_divide_of_int_eq)
  ultimately show ?thesis using n by (simp add: py_int_def)
qed


lemma crop_limits:
  assumes "0 < n"
  shows "0 \<le> py_int (0.01 * real_of_int n)" "py_int (0.99 * real_of_int n) \<le> n"
proof -
  have n: "0 \<le> n" using assms by simp
  show "0 \<le> py_int (0.01 * real_of_int n)"
    unfolding py_int_hundredth [OF n] using n by simp
  show "py_int (0.99 * real_of_int n) \<le> n"
    unfolding py_int_ninety_nine [OF n] using n by simp
qed

text \<open>
  The branch with ink rows and columns and no paper box tests its bounds and returns the
  image when they are empty or inverted: there the property holds.
\<close>

lemma final_crop_ink_only_ok:
  assumes "0 < H" "0 < W"
  shows "region_ok H W (final_hybrid_crop_after_deskew H W rows cols None pad)"
proof -
  define lo_x where "lo_x = py_int (0.01 * real_of_int W)"
  define lo_y where "lo_y = py_int (0.01 * real_of_int H)"
  define hi_x where "hi_x = py_int (0.99 * real_of_int W)"
  define hi_y where "hi_y = py_int (0.99 * real_of_int H)"
  have b: "0 \<le> lo_x" "0 \<le> lo_y" "hi_x \<le> W" "hi_y \<le> H"
    using crop_limits [OF assms(1)] crop_limits [OF assms(2)]
    by (simp_all add: lo_x_def lo_y_def hi_x_def hi_y_def)
  show ?thesis
  proof (cases "rows = [] \<or> cols = []")
    case True
    then show ?thesis
      using assms by (simp add: final_hybrid_crop_after_deskew_def region_ok_def Let_def)
  next
    case False
    define x0 where "x0 = max lo_x (hd cols - pad)"
    define y0 where "y0 = max lo_y (hd rows - pad)"
    define x1 where "x1 = min hi_x (last cols + pad)"
    define y1 where "y1 = min hi_y (last rows + pad)"
    have r: "final_hybrid_crop_after_deskew H W rows cols None pad =
          (if y1 \<le> y0 \<or> x1 \<le> x0 then Unmodified else Slice y0 y1 x0 x1)"
      using False
      by (simp add: final_hybrid_crop_after_deskew_def Let_def lo_x_def lo_y_def hi_x_def hi_y_def
          x0_def y0_def x1_def y1_def)
    have "0 \<le> x0" "0 \<le> y0" "x1 \<le> W" "y1 \<le> H"
      using b by (simp_all add: x0_def y0_def x1_def y1_def)
    then show ?thesis
      unfolding r using assms by (simp add: region_ok_def)
  qed
qed

text \<open>
  In the tie-break an ink box of area 0 is chosen even against a paper box of positive
  area, since \<open>area_b < area_a\<close> is then false: with the ink in rows 1990 to 1995 of an image
  2000 high and the paper box in its middle, the slice is empty although the paper box is
  a valid region.
\<close>

lemma final_crop_tie_break_empty:
  "final_hybrid_crop_after_deskew 2000 2000 [1990, 1995] [100, 200] (Some (1000, 1000, 100, 100)) 8
     = Slice 1982 1980 92 208 \<and>
   region_size 2000 2000 (Slice 1982 1980 92 208) = (0, 116) \<and>
   region_ok 2000 2000 (Slice 992 1108 992 1108)"
proof -
  have l: "py_int (0.01 * real_of_int 2000) = 2000 div 100"
      "py_int (0.99 * real_of_int 2000) = 99 * 2000 div 100"
    by (rule py_int_hundredth py_int_ninety_nine, simp)+
  have 1: "final_hybrid_crop_after_deskew 2000 2000 [1990, 1995] [100, 200]
             (Some (1000, 1000, 100, 100)) 8 = Slice 1982 1980 92 208"
    unfolding final_hybrid_crop_after_deskew_def Let_def l by simp
  have 2: "region_size 2000 2000 (Slice 1982 1980 92 208) = (0, 116)"
    by (simp add: slice_len_def slice_bound_def)
  show ?thesis unfolding 1 using 2 by (simp add: region_ok_def)
qed

text \<open>
  Claim C4 is violated by the code.  With no ink rows and a paper box at the bottom edge of
  an image 2000 high and 10 wide (rows 1990 to 1999 white on black), the function returns
  \<open>rgb[1982:1980, 0:9]\<close>, an array of height 0: this branch returns its slice without the
  test \<open>y1 <= y0 or x1 <= x0\<close> that the branch without a paper box makes.
\<close>

theorem final_crop_empty_region:
  "final_hybrid_crop_after_deskew 2000 10 [] [] (Some (0, 1990, 10, 10)) 8 = Slice 1982 1980 0 9 \<and>
   region_size 2000 10 (Slice 1982 1980 0 9) = (0, 9) \<and>
   \<not> region_ok 2000 10 (final_hybrid_crop_after_deskew 2000 10 [] [] (Some (0, 1990, 10, 10)) 8)"
proof -
  have l: "py_int (0.01 * real_of_int 2000) = 2000 div 100"
      "py_int (0.99 * real_of_int 2000) = 99 * 2000 div 100"
      "py_int (0.01 * real_of_int 10) = 10 div 100"
      "py_int (0.99 * real_of_int 10) = 99 * 10 div 100"
    by (rule py_int_hundredth py_int_ninety_nine, simp)+
  have 1: "final_hybrid_crop_after_deskew 2000 10 [] [] (Some (0, 1990, 10, 10)) 8 = Slice 1982 1980 0 9"
    unfolding final_hybrid_crop_after_deskew_def Let_def l by simp
  have 2: "region_size 2000 10 (Slice 1982 1980 0 9) = (0, 9)"
    by (simp add: slice_len_def slice_bound_def)
  show ?thesis unfolding 1 using 2 by (simp add: region_ok_def)
qed

section \<open>Claim C5: row segmentation\<close>

lemma box_simps [simp]: "box_top (x, y, w, h) = y" "box_height (x, y, w, h) = h"
  by (simp_all add: box_top_def box_height_def)

text \<open>The scan: tops strictly increasing, heights positive.\<close>

lemma scan_rows_inv:
  assumes "scan_inv cur st" "40 \<le> min_h" "sorted_wrt (<) ys" "\<forall>y\<in>set ys. cur \<le> y \<and> y \<le> H - 1"
  shows "\<exists>c. scan_inv c (scan_rows is_ink H W min_h ys st)"
  using assms
proof (induction ys arbitrary: cur st)
  case Nil
  then show ?case by auto
next
  case (Cons y ys)
  obtain segments in_seg y0 where st: "st = (segments, in_seg, y0)" by (cases st) auto
  have y: "cur \<le> y" "y \<le> H - 1" using Cons.prems(4) by auto
  have ys: "sorted_wrt (<) ys" "\<forall>z\<in>set ys. y + 1 \<le> z \<and> z \<le> H - 1"
    using Cons.prems(3,4) by auto
  have inv: "0 \<le> y0" "sorted_wrt (<) (map box_top segments)"
    "\<forall>b\<in>set segments. 0 < box_height b \<and> box_top b + 40 \<le> cur"
    "in_seg \<longrightarrow> y0 < cur \<and> (\<forall>b\<in>set segments. box_top b + 40 \<le> y0)"
    using Cons.prems(1) by (simp_all add: scan_inv_def st)
  have cur: "0 \<le> cur" using Cons.prems(1) by (simp add: scan_inv_def st)
  show ?case
  proof (cases "is_ink y \<and> \<not> in_seg")
    case True
    have step: "scan_rows is_ink H W min_h (y # ys) st = scan_rows is_ink H W min_h ys (segments, True, y)"
      using True by (auto simp: st)
    have "scan_inv (y + 1) (segments, True, y)"
      using inv y cur True by (auto simp: scan_inv_def)
    then show ?thesis
      unfolding step by (rule Cons.IH [OF _ Cons.prems(2) ys])
  next
    case False
    show ?thesis
    proof (cases "(\<not> is_ink y \<or> y = H - 1) \<and> in_seg")
      case close: True
      show ?thesis
      proof (cases "y - y0 \<ge> min_h")
        case long: True
        let ?seg = "(0::int, max 0 (y0 - 4), W, min (H - 1) (y + 4) - max 0 (y0 - 4))"
        have step: "scan_rows is_ink H W min_h (y # ys) st =
                    scan_rows is_ink H W min_h ys (segments @ [?seg], False, y0)"
          using False close long by (auto simp: st Let_def)
        have t: "box_top ?seg \<le> y0" using inv(1) by simp
        have h: "0 < box_height ?seg" using long Cons.prems(2) y inv(1) by simp
        have gt: "\<forall>b\<in>set segments. box_top b < box_top ?seg"
          using inv(4) close by auto
        have "scan_inv (y + 1) (segments @ [?seg], False, y0)"
          unfolding scan_inv_def
          using inv y t h gt long cur Cons.prems(2)
          by (auto simp: sorted_wrt_append)
        then show ?thesis
          unfolding step by (rule Cons.IH [OF _ Cons.prems(2) ys])
      next
        case short: False
        have step: "scan_rows is_ink H W min_h (y # ys) st =
                    scan_rows is_ink H W min_h ys (segments, False, y0)"
          using False close short by (auto simp: st Let_def)
        have "scan_inv (y + 1) (segments, False, y0)"
          using inv y cur by (auto simp: scan_inv_def)
        then show ?thesis
          unfolding step by (rule Cons.IH [OF _ Cons.prems(2) ys])
      qed
    next
      case keep: False
      have step: "scan_rows is_ink H W min_h (y # ys) st =
                  scan_rows is_ink H W min_h ys (segments, in_seg, y0)"
        using False keep by (auto simp: st)
      have "scan_inv (y + 1) (segments, in_seg, y0)"
        using inv y cur by (auto simp: scan_inv_def)
      then show ?thesis
        unfolding step by (rule Cons.IH [OF _ Cons.prems(2) ys])
    qed
  qed
qed

lemma upto_sorted: "sorted_wrt (<) [i..j]"
  by (simp add: sorted_wrt_upto)

lemma segments_sorted:
  assumes "segments = fst (scan_rows is_ink H W (max 40 (H div 40)) [0..H - 1] ([], False, 0))"
  shows "sorted_wrt (<) (map box_top segments) \<and> (\<forall>b\<in>set segments. 0 < box_height b)"
proof -
  have i: "scan_inv 0 ([], False, 0)" by (simp add: scan_inv_def)
  obtain c where "scan_inv c (scan_rows is_ink H W (max 40 (H div 40)) [0..H - 1] ([], False, 0))"
    using scan_rows_inv [OF i, of "max 40 (H div 40)" "[0..H - 1]" H is_ink W] upto_sorted
    by auto
  then show ?thesis
    unfolding assms
    by (cases "scan_rows is_ink H W (max 40 (H div 40)) [0..H - 1] ([], False, 0)")
       (auto simp: scan_inv_def)
qed

lemma merge_segments_inv:
  assumes "sorted_wrt (<) (map box_top rest)" "\<forall>b\<in>set rest. 0 < box_height b"
    "sorted_wrt gapped merged" "\<forall>b\<in>set merged. 0 < box_height b"
    "merged \<noteq> [] \<longrightarrow> (\<forall>b\<in>set rest. box_top (last merged) < box_top b)"
  shows "sorted_wrt gapped (merge_segments rest merged) \<and>
         (\<forall>b\<in>set (merge_segments rest merged). 0 < box_height b)"
  using assms
proof (induction rest arbitrary: merged)
  case Nil
  then show ?case by simp
next
  case (Cons seg rest)
  obtain x y w h where seg: "seg = (x, y, w, h)" by (cases seg) auto
  have rest: "sorted_wrt (<) (map box_top rest)" "\<forall>b\<in>set rest. 0 < box_height b"
    "\<forall>b\<in>set rest. y < box_top b" "0 < h"
    using Cons.prems(1,2) by (auto simp: seg)
  show ?case
  proof (cases "merged = []")
    case True
    have step: "merge_segments (seg # rest) merged = merge_segments rest [seg]"
      using True by simp
    show ?thesis
      unfolding step using rest by (intro Cons.IH) (auto simp: seg)
  next
    case False
    then obtain ms m where merged: "merged = ms @ [m]" by (cases merged rule: rev_cases) auto
    obtain px py pw ph where m: "m = (px, py, pw, ph)" by (cases m) auto
    have pre: "sorted_wrt gapped ms" "\<forall>a\<in>set ms. gapped a m" "\<forall>b\<in>set ms. 0 < box_height b"
      "0 < ph" "py < y" "\<forall>b\<in>set rest. py < box_top b"
      using Cons.prems(3,4,5) rest by (auto simp: merged m seg sorted_wrt_append)
    show ?thesis
    proof (cases "y \<le> py + ph + 12")
      case True
      let ?n = "(px, py, pw, (y + h) - py)"
      have step: "merge_segments (seg # rest) merged = merge_segments rest (ms @ [?n])"
        using True by (simp add: merged m seg)
      have "\<forall>a\<in>set ms. gapped a ?n" using pre(2) by (simp add: gapped_def m)
      then show ?thesis
        unfolding step using rest pre
        by (intro Cons.IH) (auto simp: sorted_wrt_append)
    next
      case False
      have step: "merge_segments (seg # rest) merged = merge_segments rest (merged @ [seg])"
        using False by (simp add: merged m seg)
      have "gapped m seg" using False by (simp add: gapped_def m seg)
      moreover have "\<forall>a\<in>set ms. gapped a seg"
        using pre(2,5) by (auto simp: gapped_def m seg)
      ultimately show ?thesis
        unfolding step using rest pre Cons.prems(3,4)
        by (intro Cons.IH) (auto simp: sorted_wrt_append merged seg)
    qed
  qed
qed

lemma cut_rows_origin:
  "o' \<in> set (cut_rows c ms) \<Longrightarrow>
   \<exists>b\<in>set ms. box_top b \<le> box_top o' \<and> c \<le> box_top o' \<and>
              box_top o' + box_height o' = box_top b + box_height b \<and>
              box_top o' < box_top b + box_height b"
proof (induction ms)
  case Nil
  then show ?case by simp
next
  case (Cons m ms)
  obtain x y w h where m: "m = (x, y, w, h)" by (cases m) auto
  show ?case
  proof (cases "(y + h) > c \<and> (max y c - y) < h")
    case True
    then have "cut_rows c (m # ms) = (x, max y c, w, (y + h) - max y c) # cut_rows c ms"
      by (simp add: m Let_def)
    then have "o' = (x, max y c, w, (y + h) - max y c) \<or> o' \<in> set (cut_rows c ms)"
      using Cons.prems by simp
    then show ?thesis
    proof
      assume "o' = (x, max y c, w, (y + h) - max y c)"
      then show ?thesis using True by (auto simp: m)
    next
      assume "o' \<in> set (cut_rows c ms)"
      then show ?thesis using Cons.IH by auto
    qed
  next
    case False
    then have "cut_rows c (m # ms) = cut_rows c ms" by (auto simp: m Let_def)
    then show ?thesis using Cons.IH Cons.prems by auto
  qed
qed

lemma cut_rows_clear:
  assumes "sorted_wrt gapped ms"
  shows "sorted_wrt clear_of (cut_rows c ms)"
  using assms
proof (induction ms)
  case Nil
  then show ?case by simp
next
  case (Cons m ms)
  obtain x y w h where m: "m = (x, y, w, h)" by (cases m) auto
  have ih: "sorted_wrt clear_of (cut_rows c ms)" using Cons by simp
  show ?case
  proof (cases "(y + h) > c \<and> (max y c - y) < h")
    case True
    let ?n = "(x, max y c, w, (y + h) - max y c)"
    have step: "cut_rows c (m # ms) = ?n # cut_rows c ms"
      using True by (simp add: m Let_def)
    have "clear_of ?n o'" if mem: "o' \<in> set (cut_rows c ms)" for o'
    proof -
      obtain b where b: "b \<in> set ms" "box_top b \<le> box_top o'"
        using cut_rows_origin [OF mem] by blast
      have "gapped m b" using Cons.prems b(1) by simp
      then show ?thesis using b(2) by (simp add: gapped_def clear_of_def m)
    qed
    then show ?thesis unfolding step using ih by simp
  next
    case False
    then have "cut_rows c (m # ms) = cut_rows c ms" by (auto simp: m Let_def)
    then show ?thesis using ih by simp
  qed
qed

lemma split_rows_spec:
  "sorted_wrt clear_of (split_rows gray T band f) \<and>
   (\<forall>b\<in>set (split_rows gray T band f). top_cut_of gray f \<le> box_top b \<and> 0 < box_height b)"
proof -
  define H where "H = int (height gray)"
  define W where "W = int (width gray)"
  define is_ink where
    "is_ink = (\<lambda>y. real (row_projection gray T band (nat y)) > projection_threshold gray T band)"
  define segments where
    "segments = fst (scan_rows is_ink H W (max 40 (H div 40)) [0..H - 1] ([], False, 0))"
  define merged where "merged = merge_segments segments []"
  have s: "split_rows gray T band f = cut_rows (top_cut_of gray f) merged"
    by (simp add: split_rows_def Let_def merged_def segments_def is_ink_def H_def W_def)
  have seg: "sorted_wrt (<) (map box_top segments)" "\<forall>b\<in>set segments. 0 < box_height b"
    using segments_sorted [OF segments_def] by auto
  have m: "sorted_wrt gapped merged" "\<forall>b\<in>set merged. 0 < box_height b"
    unfolding merged_def using merge_segments_inv [OF seg, of "[]"] by auto
  have 1: "sorted_wrt clear_of (cut_rows (top_cut_of gray f) merged)"
    using m(1) by (rule cut_rows_clear)
  have 2: "top_cut_of gray f \<le> box_top b \<and> 0 < box_height b"
    if mem: "b \<in> set (cut_rows (top_cut_of gray f) merged)" for b
  proof -
    obtain a where "a \<in> set merged" "top_cut_of gray f \<le> box_top b"
      "box_top b + box_height b = box_top a + box_height a"
      "box_top b < box_top a + box_height a"
      using cut_rows_origin [OF mem] by blast
    then show ?thesis by simp
  qed
  show ?thesis unfolding s using 1 2 by blast
qed

lemma make_row_fields:
  "make_row rects band q r = Inr row \<Longrightarrow> bbox row = r \<and> row_id row = ''q'' @ str_nat q"
  by (cases band; cases r)
     (auto simp: make_row_def Let_def split: if_splits sum.splits list.splits prod.splits)

lemma attach_loop_spec:
  "attach_loop rects band q rs = Inr out \<Longrightarrow>
   map bbox out = rs \<and> map row_id out = map (\<lambda>k. ''q'' @ str_nat (q + k)) [0..<length rs]"
proof (induction rs arbitrary: q out)
  case Nil
  then show ?case by simp
next
  case (Cons r rs)
  obtain row where row: "make_row rects band q r = Inr row"
    using Cons.prems by (cases "make_row rects band q r") auto
  obtain out' where out': "attach_loop rects band (Suc q) rs = Inr out'"
    using Cons.prems row by (cases "attach_loop rects band (Suc q) rs") auto
  have out: "out = row # out'" using Cons.prems row out' by simp
  have ih: "map bbox out' = rs"
    "map row_id out' = map (\<lambda>k. ''q'' @ str_nat (Suc q + k)) [0..<length rs]"
    using Cons.IH [OF out'] by auto
  have "[0..<length (r # rs)] = 0 # map Suc [0..<length rs]"
    by (simp add: upt_conv_Cons map_Suc_upt del: upt_Suc)
  then show ?case
    using make_row_fields [OF row] ih by (simp add: out comp_def del: upt_Suc)
qed

lemma clear_sorted_tops:
  assumes "sorted_wrt clear_of bs" "\<forall>b\<in>set bs. 0 < box_height b"
  shows "sorted_wrt (<) (map box_top bs)"
proof -
  have "sorted_wrt (\<lambda>a b. box_top a < box_top b) bs"
    using assms
  proof (induction bs)
    case Nil
    then show ?case by simp
  next
    case (Cons b bs)
    then show ?case by (auto simp: clear_of_def)
  qed
  then show ?thesis by (simp add: sorted_wrt_map)
qed

lemma strict_sorted_tops: "sorted_wrt (<) (map box_top bs) \<Longrightarrow> sorted (map (\<lambda>r. fst (snd r)) bs)"
proof -
  assume a: "sorted_wrt (<) (map box_top bs)"
  have e: "(\<lambda>r. fst (snd r)) = box_top" by (auto simp: box_top_def)
  have "sorted_wrt (\<le>) (map box_top bs)"
    using a by (rule sorted_wrt_mono_rel [rotated]) auto
  then show ?thesis by (simp add: e)
qed

text \<open>
  Claim C5, amended.  For every grey image, answer band and cutoff fraction, the rows that
  \<open>split_rows\<close> followed by \<open>attach_answer_boxes\<close> returns have strictly increasing tops,
  no two of them overlap vertically, no top lies above the cutoff row
  \<open>int(image_height * min_y_frac)\<close>, and the ids are \<open>q1, q2, ...\<close> from the top down.
\<close>

theorem rows_ordered_and_numbered:
  assumes "attach_answer_boxes rects (split_rows gray T band min_y_frac) band = Inr rows"
  shows "sorted_wrt (<) (map row_top rows) \<and>
         sorted_wrt (\<lambda>a b. row_top a + row_height a \<le> row_top b) rows \<and>
         (\<forall>r\<in>set rows. py_int (real (height gray) * min_y_frac) \<le> row_top r) \<and>
         map row_id rows = map (\<lambda>k. ''q'' @ str_nat (Suc k)) [0..<length rows]"
proof -
  let ?bs = "split_rows gray T band min_y_frac"
  have sp: "sorted_wrt clear_of ?bs"
    "\<forall>b\<in>set ?bs. top_cut_of gray min_y_frac \<le> box_top b \<and> 0 < box_height b"
    using split_rows_spec [of gray T band min_y_frac] by auto
  have tops: "sorted_wrt (<) (map box_top ?bs)"
    using sp by (intro clear_sorted_tops) auto
  have "sort_key (\<lambda>r. fst (snd r)) ?bs = ?bs"
    using strict_sorted_tops [OF tops] by (rule sort_key_id_if_sorted)
  then have a: "attach_loop rects band 1 ?bs = Inr rows"
    using assms by (simp add: attach_answer_boxes_def)
  have bb: "map bbox rows = ?bs"
    and ids: "map row_id rows = map (\<lambda>k. ''q'' @ str_nat (1 + k)) [0..<length ?bs]"
    using attach_loop_spec [OF a] by auto
  have len: "length rows = length ?bs" using bb by (metis length_map)
  have rt: "map row_top rows = map box_top ?bs"
    unfolding bb [symmetric] by (simp add: row_top_def box_top_def)
  have 1: "sorted_wrt (<) (map row_top rows)" unfolding rt by (rule tops)
  have "sorted_wrt clear_of (map bbox rows)" unfolding bb by (rule sp(1))
  then have "sorted_wrt (\<lambda>a b. clear_of (bbox a) (bbox b)) rows" by (simp add: sorted_wrt_map)
  then have 2: "sorted_wrt (\<lambda>a b. row_top a + row_height a \<le> row_top b) rows"
    by (rule sorted_wrt_mono_rel [rotated])
       (simp add: clear_of_def row_top_def row_height_def box_top_def box_height_def)
  have 3: "\<forall>r\<in>set rows. py_int (real (height gray) * min_y_frac) \<le> row_top r"
  proof
    fix r assume "r \<in> set rows"
    then have "bbox r \<in> set ?bs" using bb by (metis imageI set_map)
    then show "py_int (real (height gray) * min_y_frac) \<le> row_top r"
      using sp(2) by (simp add: top_cut_of_def row_top_def box_top_def)
  qed
  show ?thesis using 1 2 3 ids by (simp add: len)
qed

lemma scan_rows_cong:
  "\<forall>y\<in>set ys. f y = g y \<Longrightarrow> scan_rows f H W m ys st = scan_rows g H W m ys st"
proof (induction ys arbitrary: st)
  case Nil
  then show ?case by simp
next
  case (Cons y ys)
  obtain segments in_seg y0 where st: "st = (segments, in_seg, y0)" by (cases st) auto
  have "f y = g y" "\<forall>y\<in>set ys. f y = g y" using Cons.prems by auto
  then show ?case using Cons.IH by (simp add: st Let_def)
qed

lemma scan_rows_append:
  "scan_rows f H W m (xs @ ys) st = scan_rows f H W m ys (scan_rows f H W m xs st)"
proof (induction xs arbitrary: st)
  case Nil
  then show ?case by simp
next
  case (Cons x xs)
  obtain segments in_seg y0 where st: "st = (segments, in_seg, y0)" by (cases st) auto
  show ?case using Cons.IH by (simp add: st Let_def)
qed

lemma scan_rows_inside:
  "\<forall>y\<in>set ys. f y \<and> y \<noteq> H - 1 \<Longrightarrow>
   scan_rows f H W m ys (segments, True, y0) = (segments, True, y0)"
  by (induction ys) simp_all

lemma scan_rows_outside:
  "\<forall>y\<in>set ys. \<not> f y \<Longrightarrow>
   scan_rows f H W m ys (segments, False, y0) = (segments, False, y0)"
  by (induction ys) simp_all

text \<open>The sample page: projection, threshold, scan and rows.\<close>

lemma sum_four: "(\<Sum>x<(4::nat). f x) = f 0 + f 1 + f 2 + (f 3 :: nat)"
  by (simp add: eval_nat_numeral)

lemma ruled_projection:
  "y < 120 \<Longrightarrow> row_projection ruled_page ruled_threshold ruled_band y =
     (if y \<le> 40 \<or> 70 \<le> y then 1020 else if 60 \<le> y then 255 else 0)"
  by (simp add: row_projection_def sum_four masked_bw_def ruled_page_def ruled_band_def
      ruled_threshold_def in_slice_def slice_bound_def)

lemma ruled_projection_sum:
  "(\<Sum>y<120. row_projection ruled_page ruled_threshold ruled_band y) = 95370"
proof -
  let ?g = "\<lambda>y::nat. if y \<le> 40 \<or> 70 \<le> y then 1020 else if 60 \<le> y then 255 else (0::nat)"
  have 0: "(\<Sum>y<120. row_projection ruled_page ruled_threshold ruled_band y) = sum ?g {0..<120}"
    unfolding lessThan_atLeast0 by (rule sum.cong) (simp_all add: ruled_projection)
  have 1: "sum ?g {0..<120} = sum ?g {0..<41} + sum ?g {41..<60} + sum ?g {60..<70} + sum ?g {70..<120}"
    by (simp only: sum.atLeastLessThan_concat [of 0 41 60 ?g] sum.atLeastLessThan_concat [of 0 60 70 ?g]
        sum.atLeastLessThan_concat [of 0 70 120 ?g] le0 numeral_le_iff semiring_norm)
  have 2: "sum ?g {0..<41} = (\<Sum>y\<in>{0..<41::nat}. 1020::nat)" by (rule sum.cong) auto
  have 3: "sum ?g {41..<60} = (\<Sum>y\<in>{41..<60::nat}. 0::nat)" by (rule sum.cong) auto
  have 4: "sum ?g {60..<70} = (\<Sum>y\<in>{60..<70::nat}. 255::nat)" by (rule sum.cong) auto
  have 5: "sum ?g {70..<120} = (\<Sum>y\<in>{70..<120::nat}. 1020::nat)" by (rule sum.cong) auto
  show ?thesis
    unfolding 0 1 2 3 4 5 by simp
qed

lemma ruled_thresh: "projection_threshold ruled_page ruled_threshold ruled_band = 317.9"
proof -
  have h: "height ruled_page = 120" by (simp add: ruled_page_def)
  show ?thesis
    unfolding projection_threshold_def h ruled_projection_sum by simp
qed

lemma ruled_ink:
  assumes "0 \<le> y" "y \<le> 119"
  shows "(real (row_projection ruled_page ruled_threshold ruled_band (nat y))
            > projection_threshold ruled_page ruled_threshold ruled_band) = (y \<le> 40 \<or> 70 \<le> y)"
proof -
  obtain n where n: "y = int n" using assms(1) by (metis nat_0_le)
  have "n < 120" using assms(2) n by simp
  then show ?thesis by (simp add: n ruled_projection ruled_thresh)
qed

lemma ruled_upto:
  "[0..119] = [0] @ [1..40] @ [41] @ [42..69] @ [70] @ [71..118] @ [119::int]"
proof -
  have "[0..119] = [0..40] @ [41..69] @ [70..119::int]"
    using upto_split1 [of 0 41 119] upto_split1 [of 41 70 119] by simp
  moreover have "[0..40] = [0] @ [1..40::int]" using upto_rec1 [of 0 40] by simp
  moreover have "[41..69] = [41] @ [42..69::int]" using upto_rec1 [of 41 69] by simp
  moreover have "[70..119] = [70] @ [71..118] @ [119::int]"
    using upto_rec1 [of 70 119] upto_rec2 [of 71 119] by simp
  ultimately show ?thesis by simp
qed

lemma ruled_scan:
  "fst (scan_rows (\<lambda>y. real (row_projection ruled_page ruled_threshold ruled_band (nat y))
                        > projection_threshold ruled_page ruled_threshold ruled_band)
          120 4 40 [0..119] ([], False, 0)) = [(0, 0, 4, 45), (0, 66, 4, 53)]"
proof -
  let ?g = "\<lambda>y::int. y \<le> 40 \<or> 70 \<le> y"
  have "\<forall>y\<in>set [0..119]. (real (row_projection ruled_page ruled_threshold ruled_band (nat y))
            > projection_threshold ruled_page ruled_threshold ruled_band) = ?g y"
    by (simp add: ruled_ink)
  then have 1: "scan_rows (\<lambda>y. real (row_projection ruled_page ruled_threshold ruled_band (nat y))
                        > projection_threshold ruled_page ruled_threshold ruled_band)
          120 4 40 [0..119] ([], False, 0) = scan_rows ?g 120 4 40 [0..119] ([], False, 0)"
    by (rule scan_rows_cong)
  have 2: "scan_rows ?g 120 4 40 [0] ([], False, 0) = ([], True, 0)"
    by simp
  have 3: "scan_rows ?g 120 4 40 [1..40] ([], True, 0) = ([], True, 0)"
    by (rule scan_rows_inside) auto
  have 4: "scan_rows ?g 120 4 40 [41] ([], True, 0) = ([(0, 0, 4, 45)], False, 0)"
    by (simp add: Let_def)
  have 5: "scan_rows ?g 120 4 40 [42..69] ([(0, 0, 4, 45)], False, 0) = ([(0, 0, 4, 45)], False, 0)"
    by (rule scan_rows_outside) auto
  have 6: "scan_rows ?g 120 4 40 [70] ([(0, 0, 4, 45)], False, 0) = ([(0, 0, 4, 45)], True, 70)"
    by simp
  have 7: "scan_rows ?g 120 4 40 [71..118] ([(0, 0, 4, 45)], True, 70) = ([(0, 0, 4, 45)], True, 70)"
    by (rule scan_rows_inside) auto
  have 8: "scan_rows ?g 120 4 40 [119] ([(0, 0, 4, 45)], True, 70)
             = ([(0, 0, 4, 45), (0, 66, 4, 53)], False, 70)"
    by (simp add: Let_def)
  have "scan_rows ?g 120 4 40 [0..119] ([], False, 0) = ([(0, 0, 4, 45), (0, 66, 4, 53)], False, 70)"
    by (simp only: ruled_upto scan_rows_append 2 3 4 5 6 7 8)
  then show ?thesis
    by (simp only: 1 fst_conv)
qed

lemma ruled_split:
  "split_rows ruled_page ruled_threshold ruled_band f
     = cut_rows (py_int (120 * f)) [(0, 0, 4, 45), (0, 66, 4, 53)]"
proof -
  have h: "int (height ruled_page) = 120" "int (width ruled_page) = 4" "real (height ruled_page) = 120"
    by (simp_all add: ruled_page_def)
  show ?thesis
    unfolding split_rows_def Let_def h top_cut_of_def
    using ruled_scan by simp
qed

lemma str_nat_one: "str_nat (Suc 0) = ''1''"
  by code_simp

lemma str_nat_two: "str_nat (Suc (Suc 0)) = ''2''"
  by code_simp

lemma ruled_attach:
  "attach_answer_boxes no_rects [(0, y, 4, h), (0, 66, 4, 53)] ruled_band
     = (if 60 \<le> y + h div 2 \<and> y + h div 2 \<le> 120
        then Inr [\<lparr>row_id = ''q1'', bbox = (0, y, 4, h), answer_box_bbox = None,
                   row_type = ''mcq'', row_confidence = 0.86, row_image = None, answer_image = None\<rparr>,
                  ruled_q2]
        else Inr [\<lparr>row_id = ''q1'', bbox = (0, y, 4, h), answer_box_bbox = None,
                   row_type = ''text'', row_confidence = 0.72, row_image = None, answer_image = None\<rparr>,
                  ruled_q2])"
  if "y \<le> 66" for y h :: int
  using that
  by (simp add: attach_answer_boxes_def make_row_def ruled_band_def no_rects_def
      box_candidates_def Let_def str_nat_one str_nat_two ruled_q2_def)

text \<open>
  Claim C5, as stated, puts the cutoff at \<open>image_height * min_y_frac\<close>.  The code truncates
  it: on the sample page, 120 high, with the default fraction 0.26 the cutoff is 31.2,
  \<open>top_cut\<close> is 31, and the first of the two rows is cut to start at 31, above 31.2.
\<close>

theorem rows_cutoff_counterexample:
  "attach_answer_boxes no_rects (split_rows ruled_page ruled_threshold ruled_band 0.26) ruled_band
     = Inr [\<lparr>row_id = ''q1'', bbox = (0, 31, 4, 14), answer_box_bbox = None,
             row_type = ''text'', row_confidence = 0.72, row_image = None, answer_image = None\<rparr>,
            \<lparr>row_id = ''q2'', bbox = (0, 66, 4, 53), answer_box_bbox = None,
             row_type = ''mcq'', row_confidence = 0.86, row_image = None, answer_image = None\<rparr>] \<and>
   real_of_int 31 < real (height ruled_page) * 0.26"
proof -
  have c: "py_int (120 * 0.26) = 31" by (simp add: py_int_def)
  have s: "split_rows ruled_page ruled_threshold ruled_band 0.26 = [(0, 31, 4, 14), (0, 66, 4, 53)]"
    unfolding ruled_split c by (simp add: Let_def)
  show ?thesis
    unfolding s
    by (simp add: ruled_attach ruled_q2_def ruled_page_def)
qed

theorem rows_ordered_and_numbered_witness:
  "attach_answer_boxes no_rects (split_rows ruled_page ruled_threshold ruled_band 0.1) ruled_band
     = Inr [ruled_q1, ruled_q2] \<and>
   row_top ruled_q1 < row_top ruled_q2 \<and>
   row_top ruled_q1 + row_height ruled_q1 \<le> row_top ruled_q2 \<and>
   py_int (real (height ruled_page) * 0.1) = 12 \<and>
   py_int (real (height ruled_page) * 0.1) \<le> row_top ruled_q1 \<and>
   py_int (real (height ruled_page) * 0.1) \<le> row_top ruled_q2 \<and>
   [row_id ruled_q1, row_id ruled_q2] = [''q'' @ str_nat 1, ''q'' @ str_nat 2]"
proof -
  have c: "py_int (120 * 0.1) = 12" by (simp add: py_int_def)
  have s: "split_rows ruled_page ruled_threshold ruled_band 0.1 = [(0, 12, 4, 33), (0, 66, 4, 53)]"
    unfolding ruled_split c by (simp add: Let_def)
  have a: "attach_answer_boxes no_rects (split_rows ruled_page ruled_threshold ruled_band 0.1) ruled_band
     = Inr [ruled_q1, ruled_q2]"
    unfolding s by (simp add: ruled_attach ruled_q1_def)
  show ?thesis
    using a rows_ordered_and_numbered [OF a]
    by (simp add: ruled_page_def py_int_def numeral_2_eq_2)
qed

section \<open>The decomposition of a homography\<close>







lemma mat2_transpose_twice [simp]: "mat2_transpose (mat2_transpose A) = A"
  by (cases A) simp


lemma mat2_det_transpose [simp]: "mat2_det (mat2_transpose A) = mat2_det A"
  by (cases A) simp


















text \<open>The columns of a rotation after a scaling have the lengths of the scale factors.\<close>

lemma norm2_cos_sin:
  assumes "0 \<le> k"
  shows "norm2 (cos t * k) (sin t * k) = k" "norm2 (- sin t * k) (cos t * k) = k"
proof -
  have cs: "cos t * cos t + sin t * sin t = 1" "sin t * sin t + cos t * cos t = 1"
    by (simp_all add: power2_eq_square [symmetric])
  have 1: "cos t * k * (cos t * k) + sin t * k * (sin t * k) = k * k"
    using cs(1) by algebra
  have 2: "- sin t * k * (- sin t * k) + cos t * k * (cos t * k) = k * k"
    using cs(2) by algebra
  show "norm2 (cos t * k) (sin t * k) = k" unfolding norm2_def 1 using assms by simp
  show "norm2 (- sin t * k) (cos t * k) = k" unfolding norm2_def 2 using assms by simp
qed











section \<open>Claim C7: the range of the transform parameters\<close>



section \<open>Claim C8: recovering a known rotation and scaling\<close>


text \<open>Where it raises, the rotation is lost and the scale factors are the column norms.\<close>

lemma rotation_and_scales_fallback:
  assumes "0 < sx" "0 < sy"
    and "sv (mat2_mul (rotation2 t) (mat2_diag sx sy)) = None"
  shows "rotation_and_scales sv (mat2_mul (rotation2 t) (mat2_diag sx sy)) = (mat2_eye, sx, sy)"
proof -
  have A: "mat2_mul (rotation2 t) (mat2_diag sx sy)
             = Mat2 (cos t * sx) (- sin t * sy) (sin t * sx) (cos t * sy)"
    by (simp add: rotation2_def mat2_diag_def)
  have "norm2 (cos t * sx) (sin t * sx) = sx" "norm2 (- sin t * sy) (cos t * sy) = sy"
    using assms(1,2) by (simp_all only: norm2_cos_sin less_imp_le)
  then show ?thesis
    using assms(3) unfolding A by (simp add: rotation_and_scales_def)
qed




end
